theory Spec2Isabelle
  imports Main
begin

unbundle bit_operations_syntax

section \<open>Configuration (package config)\<close>

text \<open>
  Go strings are byte sequences; HOL's \<open>string\<close> is a list of 8-bit characters.
  \<open>time.Duration\<close> is an \<open>int64\<close> count of nanoseconds; it is modelled as \<open>int\<close>,
  and every arithmetic operation that can leave the 64-bit range is written with
  \<open>wrap_int64\<close>. Comparisons do not wrap.
\<close>

type_synonym Duration = int

definition wrap_int64 :: "int \<Rightarrow> int" where
  "wrap_int64 x = (x + 2 ^ 63) mod 2 ^ 64 - 2 ^ 63"

definition is_int64 :: "int \<Rightarrow> bool" where
  "is_int64 x \<longleftrightarrow> - (2 ^ 63) \<le> x \<and> x < 2 ^ 63"

text \<open>
  \<open>glob.Glob\<close> (github.com/gobwas/glob) is an interface with the single method
  \<open>Match(string) bool\<close>; a compiled glob is modelled as that method.
  \<open>GlobExpression\<close> holds a pointer to one, \<open>nil\<close> for the zero value.
\<close>

type_synonym Glob = "string \<Rightarrow> bool"

record GlobExpression =
  glob :: "Glob option"

text \<open>\<open>func (g *GlobExpression) Match(s string) bool\<close>\<close>

definition GlobExpression_Match :: "GlobExpression \<Rightarrow> string \<Rightarrow> bool" where
  "GlobExpression_Match g s = (case glob g of None \<Rightarrow> True | Some m \<Rightarrow> m s)"

type_synonym HTTPMethod = string

text \<open>
  \<open>GlobMap[T]\<close> is a Go map keyed by glob expressions. Go iterates a map in an
  unspecified order, each key once; the map is modelled as an association list whose
  order is the order of one iteration. Theorems about it hold for every list, hence for
  every iteration order.
\<close>

type_synonym GlobMap = "(GlobExpression \<times> GlobExpression list) list"

record DurRange =
  Min_d :: Duration
  Max_d :: Duration

record Replace =
  StatusCode :: int
  Body :: "string option"
  Replace_Headers :: "(string \<times> string) list"

record Effect =
  Delay :: "DurRange option"
  Replace :: "Replace option"

record Resource =
  Methods :: "HTTPMethod list"
  Path :: GlobExpression
  Headers :: GlobMap
  Query :: GlobMap
  Effect :: "Effect option"

record Config =
  Resources :: "Resource list"

datatype error = ErrMinGreaterMax

text \<open>\<open>func (r DurRange) Validate() error\<close>; \<open>None\<close> is the \<open>nil\<close> error.\<close>

definition DurRange_Validate :: "DurRange \<Rightarrow> error option" where
  "DurRange_Validate r = (if Min_d r > Max_d r then Some ErrMinGreaterMax else None)"

section \<open>Requests and the rule matcher (httpsim.go)\<close>

text \<open>
  \<open>CtxInfo\<close> is the value stored in the request context under \<open>CtxKeyInfo\<close>.
\<close>

record CtxInfo =
  MatchedResourceIndex :: int
  CtxInfo_Delay :: Duration
  Replaced :: bool

text \<open>
  The part of \<open>*http.Request\<close> that the middleware reads: \<open>r.Method\<close>,
  \<open>r.URL.Path\<close>, \<open>r.Header\<close>, the multimap returned by \<open>r.URL.Query()\<close>, and the
  value of \<open>r.Context()\<close> under \<open>CtxKeyInfo\<close> (\<open>None\<close> when absent). The two
  multimaps are Go maps from a name to its list of values.
\<close>

record Request =
  Method :: string
  URL_Path :: string
  Header :: "(string \<times> string list) list"
  URL_Query :: "(string \<times> string list) list"
  ctx :: "CtxInfo option"

text \<open>
  The innermost loop of \<open>MatchResource\<close>:
  \<open>for i, val := range val { if !values[i].Match(val) { return false } }\<close>.
  It runs only after \<open>len(val) == len(values)\<close> was checked, so \<open>values[i]\<close> is
  in range.
\<close>

fun values_loop :: "GlobExpression list \<Rightarrow> nat \<Rightarrow> string list \<Rightarrow> bool" where
  "values_loop values i [] = True"
| "values_loop values i (v # vs) =
     (if \<not> GlobExpression_Match (values ! i) v then False
      else values_loop values (Suc i) vs)"

text \<open>
  The loop over the request's fields for one configured entry:
  \<open>for header, val := range r.Header { ... }\<close>; \<open>False\<close> is the early
  \<open>return false\<close> of \<open>MatchResource\<close>.
\<close>

fun fields_loop ::
  "GlobExpression \<Rightarrow> GlobExpression list \<Rightarrow> (string \<times> string list) list \<Rightarrow> bool" where
  "fields_loop name values [] = True"
| "fields_loop name values ((header, val) # rest) =
     (if \<not> GlobExpression_Match name header then fields_loop name values rest
      else if length val \<noteq> length values then False
      else if \<not> values_loop values 0 val then False
      else fields_loop name values rest)"

text \<open>
  The loop over the configured entries: \<open>for name, values := range c.Headers\<close>.
  The source repeats the same two nested loops for \<open>c.Query\<close> and
  \<open>r.URL.Query()\<close>.
\<close>

fun globmap_loop :: "GlobMap \<Rightarrow> (string \<times> string list) list \<Rightarrow> bool" where
  "globmap_loop [] flds = True"
| "globmap_loop ((name, values) # rest) flds =
     (if \<not> fields_loop name values flds then False else globmap_loop rest flds)"

definition MatchResource :: "Request \<Rightarrow> Resource \<Rightarrow> bool" where
  "MatchResource r c =
     (if length (Methods c) > 0 \<and> Method r \<notin> set (Methods c) then False
      else if \<not> GlobExpression_Match (Path c) (URL_Path r) then False
      else if \<not> globmap_loop (Headers c) (Header r) then False
      else if \<not> globmap_loop (Query c) (URL_Query r) then False
      else True)"

text \<open>
  \<open>func Match(r *http.Request, c *config.Config) int\<close>: the loop
  \<open>for i, res := range c.Resources\<close>, with \<open>i\<close> the running index.
\<close>

fun Match_loop :: "Request \<Rightarrow> Resource list \<Rightarrow> int \<Rightarrow> int" where
  "Match_loop r [] i = - 1"
| "Match_loop r (res # rest) i =
     (if MatchResource r res then i else Match_loop r rest (i + 1))"

definition Match :: "Request \<Rightarrow> Config \<Rightarrow> int" where
  "Match r c = Match_loop r (Resources c) 0"

section \<open>Randomness source (internal/rand/rand.go)\<close>

text \<open>A Go panic, with its message.\<close>

datatype panic = Panic string

text \<open>\<open>type Seed [32]byte\<close>: a list of bytes.\<close>

type_synonym Seed = string

text \<open>
  Go's builtin \<open>copy(dst, src)\<close> copies \<open>min(len(dst), len(src))\<close> elements; the
  result is the new content of \<open>dst\<close>.
\<close>

definition copy_bytes :: "string \<Rightarrow> string \<Rightarrow> string" where
  "copy_bytes dst src = take (length dst) src @ drop (length src) dst"

text \<open>\<open>func NewSeed(s string) Seed\<close>; \<open>Inl\<close> is the panic.\<close>

definition NewSeed :: "string \<Rightarrow> panic + Seed" where
  "NewSeed s =
     (if length s \<noteq> 32 then Inl (Panic ''seed must be a 32-byte long string'')
      else Inr (copy_bytes (replicate 32 (CHR 0x00)) s))"

subsection \<open>The generator behind \<open>rand.NewChaCha8\<close>\<close>

text \<open>
  \<open>NewSourceChaCha8\<close> wraps \<open>rand.New(rand.NewChaCha8(seed))\<close> of Go's standard
  library (math/rand/v2 over internal/chacha8rand). That code is not part of the
  repository; it is modelled here after the library's portable implementation
  (\<open>block_generic\<close>) on a 64-bit little-endian platform, because the repository's tests
  pin its output. A \<open>uint32\<close> is an \<open>int\<close> in \<open>[0, 2^32)\<close> and a \<open>uint64\<close> an \<open>int\<close> in
  \<open>[0, 2^64)\<close>, with the wrap-around written out.
\<close>

definition add32 :: "int \<Rightarrow> int \<Rightarrow> int" where
  "add32 a b = (a + b) mod 2 ^ 32"

text \<open>\<open>d<<k | d>>(32-k)\<close> on a \<open>uint32\<close>.\<close>

definition rotl32 :: "nat \<Rightarrow> int \<Rightarrow> int" where
  "rotl32 k d = (d * 2 ^ k) mod 2 ^ 32 OR d div 2 ^ (32 - k)"

text \<open>
  The quarter round \<open>qr(a, b, c, d)\<close> is twelve assignments in four groups of three:
  \<open>a += b; d ^= a; d = d<<16 | d>>16\<close>, then \<open>c += d; b ^= c; b = b<<12 | b>>20\<close>,
  then the first group again with a rotation by 8 and the second with a rotation by 7.
\<close>

fun qr_ad :: "nat \<Rightarrow> int \<times> int \<times> int \<times> int \<Rightarrow> int \<times> int \<times> int \<times> int" where
  "qr_ad k (a, b, c, d) = (add32 a b, b, c, rotl32 k (d XOR add32 a b))"

fun qr_cb :: "nat \<Rightarrow> int \<times> int \<times> int \<times> int \<Rightarrow> int \<times> int \<times> int \<times> int" where
  "qr_cb k (a, b, c, d) = (a, rotl32 k (b XOR add32 c d), add32 c d, d)"

definition qr :: "int \<times> int \<times> int \<times> int \<Rightarrow> int \<times> int \<times> int \<times> int" where
  "qr x = qr_cb 7 (qr_ad 8 (qr_cb 12 (qr_ad 16 x)))"

text \<open>
  The sixteen local variables \<open>b0 .. b15\<close> of \<open>block_generic\<close> are a list;
  \<open>qr_at i j k l\<close> is the statement \<open>bi, bj, bk, bl = qr(bi, bj, bk, bl)\<close>.
\<close>

fun put4 :: "nat \<Rightarrow> nat \<Rightarrow> nat \<Rightarrow> nat \<Rightarrow> int \<times> int \<times> int \<times> int \<Rightarrow> int list \<Rightarrow> int list" where
  "put4 i j k l (a, b, c, d) st = st[i := a, j := b, k := c, l := d]"

definition qr_at :: "nat \<Rightarrow> nat \<Rightarrow> nat \<Rightarrow> nat \<Rightarrow> int list \<Rightarrow> int list" where
  "qr_at i j k l st = put4 i j k l (qr (st ! i, st ! j, st ! k, st ! l)) st"

text \<open>One iteration of \<open>for round := 0; round < 4; round++\<close>: eight quarter rounds.\<close>

definition rounds2 :: "int list \<Rightarrow> int list" where
  "rounds2 st =
     qr_at 3 4 9 14 (qr_at 2 7 8 13 (qr_at 1 6 11 12 (qr_at 0 5 10 15
    (qr_at 3 7 11 15 (qr_at 2 6 10 14 (qr_at 1 5 9 13 (qr_at 0 4 8 12 st)))))))"

text \<open>
  \<open>setup(seed, b, counter)\<close> fills the array \<open>b [16][4]uint32\<close>, here sixteen rows
  of four: the constants, the eight halves of the seed, the four counters and zeros.
\<close>

definition setup_block :: "int list \<Rightarrow> int \<Rightarrow> int list list" where
  "setup_block seed counter =
     [replicate 4 0x61707865, replicate 4 0x3320646e,
      replicate 4 0x79622d32, replicate 4 0x6b206574,
      replicate 4 (seed ! 0 mod 2 ^ 32), replicate 4 (seed ! 0 div 2 ^ 32 mod 2 ^ 32),
      replicate 4 (seed ! 1 mod 2 ^ 32), replicate 4 (seed ! 1 div 2 ^ 32 mod 2 ^ 32),
      replicate 4 (seed ! 2 mod 2 ^ 32), replicate 4 (seed ! 2 div 2 ^ 32 mod 2 ^ 32),
      replicate 4 (seed ! 3 mod 2 ^ 32), replicate 4 (seed ! 3 div 2 ^ 32 mod 2 ^ 32),
      [add32 counter 0, add32 counter 1, add32 counter 2, add32 counter 3],
      replicate 4 0, replicate 4 0, replicate 4 0]"

text \<open>
  The body of \<open>for i := range b[0]\<close>: load column \<open>i\<close>, run the four iterations,
  store the column back, adding \<open>b4 .. b11\<close> to the key material.
\<close>

definition load_column :: "int list list \<Rightarrow> nat \<Rightarrow> int list" where
  "load_column b i = map (\<lambda>row. row ! i) b"

definition store_column :: "int list \<Rightarrow> int list \<Rightarrow> int list" where
  "store_column x y =
     [y ! 0, y ! 1, y ! 2, y ! 3,
      add32 (x ! 4) (y ! 4), add32 (x ! 5) (y ! 5), add32 (x ! 6) (y ! 6),
      add32 (x ! 7) (y ! 7), add32 (x ! 8) (y ! 8), add32 (x ! 9) (y ! 9),
      add32 (x ! 10) (y ! 10), add32 (x ! 11) (y ! 11),
      y ! 12, y ! 13, y ! 14, y ! 15]"

definition block_column :: "int list list \<Rightarrow> nat \<Rightarrow> int list" where
  "block_column b i =
     store_column (load_column b i)
       (rounds2 (rounds2 (rounds2 (rounds2 (load_column b i)))))"

text \<open>
  The caller reads \<open>b\<close> as \<open>[32]uint64\<close>: word \<open>k\<close> is made of the two \<open>uint32\<close> at
  the flat positions \<open>2k\<close> and \<open>2k+1\<close>, that is row \<open>k div 2\<close>, columns
  \<open>2 (k mod 2)\<close> and \<open>2 (k mod 2) + 1\<close>, the first one the low half.
\<close>

definition buf_word :: "int list list \<Rightarrow> nat \<Rightarrow> int" where
  "buf_word cols k =
     cols ! (2 * (k mod 2)) ! (k div 2) OR cols ! (2 * (k mod 2) + 1) ! (k div 2) * 2 ^ 32"

definition block_generic :: "int list \<Rightarrow> int \<Rightarrow> int list" where
  "block_generic seed counter =
     map (buf_word (map (block_column (setup_block seed counter)) [0, 1, 2, 3])) [0..<32]"

text \<open>\<open>chacha8rand.State\<close>: the seed, the buffer, and the counters \<open>i\<close>, \<open>n\<close>, \<open>c\<close>.\<close>

record State =
  st_seed :: "int list"
  st_buf :: "int list"
  st_i :: int
  st_n :: int
  st_c :: int

definition Init64 :: "int list \<Rightarrow> State" where
  "Init64 seed =
     \<lparr>st_seed = seed, st_buf = block_generic seed 0, st_i = 0, st_n = 32, st_c = 0\<rparr>"

text \<open>\<open>byteorder.LEUint64\<close> of the first eight bytes.\<close>

definition LEUint64 :: "string \<Rightarrow> int" where
  "LEUint64 b = foldr (\<lambda>c acc. of_char c + 256 * acc) (take 8 b) 0"

definition Init :: "Seed \<Rightarrow> State" where
  "Init seed =
     Init64 [LEUint64 seed, LEUint64 (drop 8 seed),
             LEUint64 (drop 16 seed), LEUint64 (drop 24 seed)]"

text \<open>
  \<open>func (s *State) Next() (uint64, bool)\<close>: the next buffered word, or \<open>false\<close> when
  the buffer is used up.
\<close>

definition Next :: "State \<Rightarrow> int \<times> bool \<times> State" where
  "Next s =
     (if st_i s \<ge> st_n s then (0, False, s)
      else (st_buf s ! nat (st_i s AND 31), True, s\<lparr>st_i := (st_i s + 1) mod 2 ^ 32\<rparr>))"

text \<open>
  \<open>func (s *State) Refill()\<close>: advance the block counter by 4; every sixteenth
  block, reseed from the last four words of the buffer; compute the next buffer.
\<close>

definition Refill :: "State \<Rightarrow> State" where
  "Refill s =
     (let c = (st_c s + 4) mod 2 ^ 32;
          seed = (if c = 16 then drop 28 (st_buf s) else st_seed s);
          c = (if c = 16 then 0 else c)
      in \<lparr>st_seed = seed, st_buf = block_generic seed c, st_i = 0,
          st_n = (if c = 12 then 28 else 32), st_c = c\<rparr>)"

text \<open>
  \<open>func (c *ChaCha8) Uint64() uint64\<close>:
  \<open>for { x, ok := c.state.Next(); if ok { return x }; c.state.Refill() }\<close>.
\<close>

function Uint64 :: "State \<Rightarrow> int \<times> State" where
  "Uint64 s =
     (case Next s of
        (x, True, s') \<Rightarrow> (x, s')
      | (x, False, s') \<Rightarrow> Uint64 (Refill s'))"
  by pat_completeness auto
termination
  by (relation "measure (\<lambda>s. if st_i s < st_n s then 0 else 1)")
     (auto simp: Next_def Refill_def Let_def split: if_splits)

declare Uint64.simps [simp del]

text \<open>\<open>bits.Mul64\<close>: the high and low halves of the 128-bit product.\<close>

definition Mul64 :: "int \<Rightarrow> int \<Rightarrow> int \<times> int" where
  "Mul64 x y = ((x * y) div 2 ^ 64, (x * y) mod 2 ^ 64)"

text \<open>
  \<open>func (r *Rand) uint64n(n uint64) uint64\<close>, 64-bit platform. The rejection loop
  \<open>for lo < thresh { hi, lo = bits.Mul64(r.Uint64(), n) }\<close> has no bound on its
  number of iterations: \<open>None\<close> is the run that never leaves it.
\<close>

partial_function (option) reject_loop ::
  "int \<Rightarrow> int \<Rightarrow> int \<Rightarrow> int \<Rightarrow> State \<Rightarrow> (int \<times> State) option" where
  "reject_loop n thresh hi lo s =
     (if lo < thresh then
        (case Uint64 s of (u, s') \<Rightarrow>
           reject_loop n thresh (fst (Mul64 u n)) (snd (Mul64 u n)) s')
      else Some (hi, s))"

definition uint64n :: "State \<Rightarrow> int \<Rightarrow> (int \<times> State) option" where
  "uint64n s n =
     (if n AND ((n - 1) mod 2 ^ 64) = 0 then
        (case Uint64 s of (u, s') \<Rightarrow> Some (u AND ((n - 1) mod 2 ^ 64), s'))
      else
        (case Uint64 s of (u, s') \<Rightarrow>
           (case Mul64 u n of (hi, lo) \<Rightarrow>
              if lo < n then reject_loop n ((- n) mod 2 ^ 64 mod n) hi lo s'
              else Some (hi, s'))))"

text \<open>
  \<open>func (r *Rand) Int64N(n int64) int64\<close> and \<open>func (r *Rand) IntN(n int) int\<close>
  (\<open>int\<close> is 64 bits wide): both panic on \<open>n <= 0\<close>.
\<close>

definition Int64N :: "State \<Rightarrow> int \<Rightarrow> (panic + int \<times> State) option" where
  "Int64N s n =
     (if n \<le> 0 then Some (Inl (Panic ''invalid argument to Int64N''))
      else (case uint64n s (n mod 2 ^ 64) of
              None \<Rightarrow> None
            | Some (x, s') \<Rightarrow> Some (Inr (wrap_int64 x, s'))))"

definition IntN :: "State \<Rightarrow> int \<Rightarrow> (panic + int \<times> State) option" where
  "IntN s n =
     (if n \<le> 0 then Some (Inl (Panic ''invalid argument to IntN''))
      else (case uint64n s (n mod 2 ^ 64) of
              None \<Rightarrow> None
            | Some (x, s') \<Rightarrow> Some (Inr (wrap_int64 x, s'))))"

subsection \<open>\<open>Source\<close>\<close>

text \<open>
  \<open>type Source struct{ r *rand.Rand }\<close>: the state of the generator it points to.
  A call returns \<open>None\<close> when it does not return, \<open>Some (Inl p)\<close> when it panics, and
  \<open>Some (Inr (v, s'))\<close> when it returns \<open>v\<close> and leaves the generator in state \<open>s'\<close>.
\<close>

type_synonym Source = State

definition NewSourceChaCha8 :: "Seed \<Rightarrow> Source" where
  "NewSourceChaCha8 seed = Init seed"

definition Dur :: "Source \<Rightarrow> Duration \<Rightarrow> Duration \<Rightarrow> (panic + Duration \<times> Source) option" where
  "Dur s dmin dmax =
     (if dmin \<ge> dmax then Some (Inr (dmin, s))
      else (case Int64N s (wrap_int64 (dmax - dmin)) of
              None \<Rightarrow> None
            | Some (Inl p) \<Rightarrow> Some (Inl p)
            | Some (Inr (x, s')) \<Rightarrow> Some (Inr (wrap_int64 (dmin + x), s'))))"

definition Bool :: "Source \<Rightarrow> (panic + bool \<times> Source) option" where
  "Bool s =
     (case IntN s 2 of
        None \<Rightarrow> None
      | Some (Inl p) \<Rightarrow> Some (Inl p)
      | Some (Inr (x, s')) \<Rightarrow> Some (Inr (x = 1, s')))"

subsection \<open>Runs and the words of the stream\<close>

text \<open>
  A run is a sequence of calls on one source, made one after the other as
  \<open>TestSource\<close> makes them; its result is the list of the values returned and the
  final state of the generator, or the first panic, or \<open>None\<close> when a call does not
  return.
\<close>

datatype call = Call_Bool | Call_Dur Duration Duration

datatype retval = Out_Bool bool | Out_Dur Duration

fun run_calls :: "Source \<Rightarrow> call list \<Rightarrow> (panic + retval list \<times> Source) option" where
  "run_calls s [] = Some (Inr ([], s))"
| "run_calls s (Call_Bool # cs) =
     (case Bool s of
        None \<Rightarrow> None
      | Some (Inl p) \<Rightarrow> Some (Inl p)
      | Some (Inr (b, s')) \<Rightarrow>
          (case run_calls s' cs of
             None \<Rightarrow> None
           | Some (Inl p) \<Rightarrow> Some (Inl p)
           | Some (Inr (outs, s'')) \<Rightarrow> Some (Inr (Out_Bool b # outs, s''))))"
| "run_calls s (Call_Dur dmin dmax # cs) =
     (case Dur s dmin dmax of
        None \<Rightarrow> None
      | Some (Inl p) \<Rightarrow> Some (Inl p)
      | Some (Inr (d, s')) \<Rightarrow>
          (case run_calls s' cs of
             None \<Rightarrow> None
           | Some (Inl p) \<Rightarrow> Some (Inl p)
           | Some (Inr (outs, s'')) \<Rightarrow> Some (Inr (Out_Dur d # outs, s''))))"

text \<open>
  \<open>draws k s\<close> is the generator after \<open>k\<close> calls of \<open>Uint64\<close>. The word that the
  generator yields next in state \<open>s\<close> is accepted by \<open>uint64n\<close> for the bound \<open>n\<close>
  when the low half of its product with \<open>n\<close> is not below the threshold
  \<open>-n % n\<close> of the rejection loop.
\<close>

fun draws :: "nat \<Rightarrow> State \<Rightarrow> State" where
  "draws 0 s = s"
| "draws (Suc k) s = draws k (snd (Uint64 s))"

definition accepts :: "int \<Rightarrow> State \<Rightarrow> bool" where
  "accepts n s \<longleftrightarrow> \<not> snd (Mul64 (fst (Uint64 s)) n) < (- n) mod 2 ^ 64 mod n"

subsection \<open>Well-formed values\<close>

text \<open>
  The ranges of the machine integers, and the invariant of the generator's state: its
  buffer holds 32 words of 64 bits, and the position \<open>i\<close> in the buffer is at most
  the number \<open>n\<close> of words to use, itself at most 32. \<open>is_block\<close> is the type of
  the sixteen local variables of \<open>block_generic\<close>.
\<close>

definition is_uint32 :: "int \<Rightarrow> bool" where
  "is_uint32 x \<longleftrightarrow> 0 \<le> x \<and> x < 2 ^ 32"

definition is_uint64 :: "int \<Rightarrow> bool" where
  "is_uint64 x \<longleftrightarrow> 0 \<le> x \<and> x < 2 ^ 64"

fun all4 :: "(int \<Rightarrow> bool) \<Rightarrow> int \<times> int \<times> int \<times> int \<Rightarrow> bool" where
  "all4 P (a, b, c, d) \<longleftrightarrow> P a \<and> P b \<and> P c \<and> P d"

definition is_block :: "int list \<Rightarrow> bool" where
  "is_block st \<longleftrightarrow> length st = 16 \<and> list_all is_uint32 st"

definition valid_State :: "State \<Rightarrow> bool" where
  "valid_State s \<longleftrightarrow>
     length (st_buf s) = 32 \<and> list_all is_uint64 (st_buf s) \<and>
     0 \<le> st_i s \<and> st_i s \<le> st_n s \<and> st_n s \<le> 32"

section \<open>The middleware (httpsim.go)\<close>

text \<open>
  The middleware acts on three interfaces: the \<open>Sleeper\<close>, the
  \<open>http.ResponseWriter\<close> and the next \<open>http.Handler\<close>. Its effect on them is the
  sequence of calls it makes, in order: \<open>sleeper.Sleep(d)\<close>,
  \<open>w.Header().Set(k, v)\<close>, \<open>w.Write(b)\<close>, \<open>w.WriteHeader(code)\<close> and
  \<open>next.ServeHTTP(w, r)\<close> with the request it passes on.
\<close>

datatype event =
  Sleep Duration
| Header_Set string string
| Write string
| WriteHeader int
| Next_ServeHTTP Request

text \<open>
  The state a request is served in: the generator behind \<open>m.rand\<close> (the repository's
  \<open>rand.Source\<close>, as in its tests and in \<open>DefaultRand\<close>) and the calls made so far.
\<close>

record World =
  rnd :: Source
  events :: "event list"

record Middleware =
  config :: Config

text \<open>
  \<open>func (m *Middleware) apply(w http.ResponseWriter, c *config.Effect)
  (delay time.Duration, replaced bool)\<close>. The first step is the \<open>if c.Delay != nil\<close>
  block, the second the \<open>if c.Replace != nil\<close> block; \<open>range c.Replace.Headers\<close>
  visits the headers in the order of the association list.
\<close>

definition apply_delay :: "Effect \<Rightarrow> World \<Rightarrow> (panic + Duration \<times> World) option" where
  "apply_delay c w =
     (case Delay c of
        None \<Rightarrow> Some (Inr (0, w))
      | Some dr \<Rightarrow>
          (case Dur (rnd w) (Min_d dr) (Max_d dr) of
             None \<Rightarrow> None
           | Some (Inl p) \<Rightarrow> Some (Inl p)
           | Some (Inr (delay, s')) \<Rightarrow>
               Some (Inr (delay, w\<lparr>rnd := s', events := events w @ [Sleep delay]\<rparr>))))"

definition Middleware_apply ::
  "Effect \<Rightarrow> World \<Rightarrow> (panic + (Duration \<times> bool) \<times> World) option" where
  "Middleware_apply c w =
     (case apply_delay c w of
        None \<Rightarrow> None
      | Some (Inl p) \<Rightarrow> Some (Inl p)
      | Some (Inr (delay, w1)) \<Rightarrow>
          (case Replace c of
             Some rep \<Rightarrow>
               Some (Inr ((delay, True),
                 w1\<lparr>events := events w1
                      @ map (\<lambda>(header, v). Header_Set header v) (Replace_Headers rep)
                      @ (case Body rep of None \<Rightarrow> [] | Some b \<Rightarrow> [Write b])
                      @ [WriteHeader (StatusCode rep)]\<rparr>))
           | None \<Rightarrow> Some (Inr ((delay, False), w1))))"

text \<open>
  \<open>func (m *Middleware) ServeHTTP(w http.ResponseWriter, r *http.Request)\<close>.
  \<open>conf.Resources[matchedResourceIndex]\<close> is in range, the index being one that
  \<open>Match\<close> returned.
\<close>

definition ServeHTTP :: "Middleware \<Rightarrow> Request \<Rightarrow> World \<Rightarrow> (panic + World) option" where
  "ServeHTTP m r w =
     (let conf = config m; matchedResourceIndex = Match r conf in
      if matchedResourceIndex \<noteq> - 1 then
        (case (case Effect (Resources conf ! nat matchedResourceIndex) of
                 None \<Rightarrow> Some (Inr ((0, False), w))
               | Some effect \<Rightarrow> Middleware_apply effect w) of
           None \<Rightarrow> None
         | Some (Inl p) \<Rightarrow> Some (Inl p)
         | Some (Inr ((delay, replaced), w')) \<Rightarrow>
             (let r' = r\<lparr>ctx := Some \<lparr>MatchedResourceIndex = matchedResourceIndex,
                                      CtxInfo_Delay = delay, Replaced = replaced\<rparr>\<rparr>
              in if replaced then Some (Inr w')
                 else Some (Inr (w'\<lparr>events := events w' @ [Next_ServeHTTP r']\<rparr>))))
      else Some (Inr (w\<lparr>events := events w @ [Next_ServeHTTP r]\<rparr>)))"

subsection \<open>What the response writer makes of the calls\<close>

text \<open>
  The sequence of calls above takes every call on the three interfaces to return. What
  an \<open>http.ResponseWriter\<close> makes of the calls on it is given here as
  \<open>httptest.ResponseRecorder\<close> (used by the repository's tests) records the status
  line and the body: the first \<open>WriteHeader\<close> fixes the status code and later ones are
  ignored; a first \<open>WriteHeader\<close> with a code outside \<open>100 .. 999\<close> panics
  (\<open>checkWriteHeaderCode\<close>; Go appends the code to the message); a \<open>Write\<close> before
  any \<open>WriteHeader\<close> first does \<open>WriteHeader(200)\<close>. The header map is not tracked
  here; the \<open>Header_Set\<close> calls are read off the sequence of calls.
\<close>

record ResponseRecorder =
  Code :: int
  wroteHeader :: bool
  Body_written :: string

definition NewRecorder :: ResponseRecorder where
  "NewRecorder = \<lparr>Code = 200, wroteHeader = False, Body_written = []\<rparr>"

definition Recorder_WriteHeader :: "int \<Rightarrow> ResponseRecorder \<Rightarrow> panic + ResponseRecorder" where
  "Recorder_WriteHeader code rw =
     (if wroteHeader rw then Inr rw
      else if code < 100 \<or> code > 999 then Inl (Panic ''invalid WriteHeader code'')
      else Inr (rw\<lparr>Code := code, wroteHeader := True\<rparr>))"

definition Recorder_Write :: "string \<Rightarrow> ResponseRecorder \<Rightarrow> panic + ResponseRecorder" where
  "Recorder_Write b rw =
     (case Recorder_WriteHeader 200 rw of
        Inl p \<Rightarrow> Inl p
      | Inr rw' \<Rightarrow> Inr (rw'\<lparr>Body_written := Body_written rw' @ b\<rparr>))"

fun record_event :: "ResponseRecorder \<Rightarrow> event \<Rightarrow> panic + ResponseRecorder" where
  "record_event rw (Write b) = Recorder_Write b rw"
| "record_event rw (WriteHeader code) = Recorder_WriteHeader code rw"
| "record_event rw _ = Inr rw"

fun record_events :: "ResponseRecorder \<Rightarrow> event list \<Rightarrow> panic + ResponseRecorder" where
  "record_events rw [] = Inr rw"
| "record_events rw (e # es) =
     (case record_event rw e of Inl p \<Rightarrow> Inl p | Inr rw' \<Rightarrow> record_events rw' es)"

definition recorded :: "event list \<Rightarrow> panic + ResponseRecorder" where
  "recorded es = record_events NewRecorder es"

section \<open>Properties of the rule matcher\<close>

text \<open>The loops of \<open>MatchResource\<close>, as the conditions they test.\<close>

lemma values_loop_iff:
  "values_loop values i vs \<longleftrightarrow>
     (\<forall>k < length vs. GlobExpression_Match (values ! (i + k)) (vs ! k))"
proof (induction vs arbitrary: i)
  case Nil
  then show ?case by simp
next
  case (Cons v vs)
  have "(\<forall>k < Suc (length vs). GlobExpression_Match (values ! (i + k)) ((v # vs) ! k)) \<longleftrightarrow>
        GlobExpression_Match (values ! i) v \<and>
        (\<forall>k < length vs. GlobExpression_Match (values ! (Suc i + k)) (vs ! k))"
    by (auto simp: less_Suc_eq_0_disj)
  with Cons.IH [of "Suc i"] show ?case by simp
qed

lemma fields_loop_iff:
  "fields_loop name values flds \<longleftrightarrow>
     (\<forall>(h, val) \<in> set flds. GlobExpression_Match name h \<longrightarrow>
        length val = length values \<and>
        (\<forall>i < length val. GlobExpression_Match (values ! i) (val ! i)))"
  by (induction flds) (auto simp: values_loop_iff split: if_splits)

lemma globmap_loop_iff:
  "globmap_loop gm flds \<longleftrightarrow> (\<forall>(name, values) \<in> set gm. fields_loop name values flds)"
  by (induction gm) (auto split: if_splits)

lemma fields_loop_unmatched:
  "\<forall>(h, val) \<in> set flds. \<not> GlobExpression_Match name h \<Longrightarrow> fields_loop name values flds"
  by (induction flds) auto

lemma globmap_loop_drop_entry:
  assumes "\<forall>(h, val) \<in> set flds. \<not> GlobExpression_Match name h"
  shows "globmap_loop (xs @ (name, values) # ys) flds = globmap_loop (xs @ ys) flds"
  using fields_loop_unmatched [OF assms] by (auto simp: globmap_loop_iff)

text \<open>The loop of \<open>Match\<close>.\<close>

lemma Match_loop_none:
  "(\<forall>res \<in> set rs. \<not> MatchResource r res) \<Longrightarrow> Match_loop r rs i = - 1"
  by (induction rs arbitrary: i) auto

lemma Match_loop_first:
  "k < length rs \<Longrightarrow> MatchResource r (rs ! k) \<Longrightarrow> (\<forall>j < k. \<not> MatchResource r (rs ! j))
   \<Longrightarrow> Match_loop r rs i = i + int k"
proof (induction rs arbitrary: i k)
  case Nil
  then show ?case by simp
next
  case (Cons res rs)
  show ?case
  proof (cases k)
    case 0
    with Cons.prems show ?thesis by simp
  next
    case (Suc k')
    with Cons.prems have no: "\<not> MatchResource r res" by auto
    from Suc Cons.prems have "Match_loop r rs (i + 1) = i + 1 + int k'"
      by (intro Cons.IH) auto
    with no Suc show ?thesis by simp
  qed
qed

lemma Match_loop_some:
  assumes "\<exists>res \<in> set rs. MatchResource r res"
  shows "\<exists>k < length rs. MatchResource r (rs ! k) \<and> (\<forall>j < k. \<not> MatchResource r (rs ! j))
      \<and> Match_loop r rs i = i + int k"
proof -
  from assms have ex: "\<exists>k. k < length rs \<and> MatchResource r (rs ! k)"
    by (auto simp: in_set_conv_nth)
  define k where "k = (LEAST k. k < length rs \<and> MatchResource r (rs ! k))"
  from ex have k: "k < length rs \<and> MatchResource r (rs ! k)"
    unfolding k_def by (rule LeastI_ex)
  have least: "\<forall>j < k. \<not> MatchResource r (rs ! j)"
  proof (intro allI impI notI)
    fix j assume "j < k" "MatchResource r (rs ! j)"
    with k have "j < length rs \<and> MatchResource r (rs ! j)" by simp
    then have "k \<le> j" unfolding k_def by (rule Least_le)
    with \<open>j < k\<close> show False by simp
  qed
  with k Match_loop_first [of k rs r i] show ?thesis by blast
qed

text \<open>
  Claim C2. For every list of rules and every request, \<open>Match\<close> returns \<open>-1\<close>
  exactly when no rule matches; it returns the index \<open>k\<close> whenever rule \<open>k\<close> matches and
  no rule before it does; and whenever some rule \<open>i\<close> matches, the result is an index
  between \<open>0\<close> and \<open>i\<close>: the first matching rule wins.
\<close>

theorem Match_lowest_index:
  "(Match r c = - 1 \<longleftrightarrow> (\<forall>k < length (Resources c). \<not> MatchResource r (Resources c ! k))) \<and>
   (\<forall>k < length (Resources c).
      MatchResource r (Resources c ! k) \<and> (\<forall>j < k. \<not> MatchResource r (Resources c ! j))
      \<longrightarrow> Match r c = int k) \<and>
   (\<forall>i < length (Resources c). MatchResource r (Resources c ! i)
      \<longrightarrow> 0 \<le> Match r c \<and> Match r c \<le> int i)"
proof -
  let ?rs = "Resources c"
  have none: "Match r c = - 1 \<longleftrightarrow> (\<forall>k < length ?rs. \<not> MatchResource r (?rs ! k))"
  proof
    assume m: "Match r c = - 1"
    show "\<forall>k < length ?rs. \<not> MatchResource r (?rs ! k)"
    proof (rule ccontr)
      assume "\<not> ?thesis"
      then have "\<exists>res \<in> set ?rs. MatchResource r res" by auto
      from Match_loop_some [OF this, of 0] m show False by (auto simp: Match_def)
    qed
  next
    assume "\<forall>k < length ?rs. \<not> MatchResource r (?rs ! k)"
    then have "\<forall>res \<in> set ?rs. \<not> MatchResource r res"
      by (auto simp: in_set_conv_nth)
    then show "Match r c = - 1" unfolding Match_def by (rule Match_loop_none)
  qed
  have first: "Match r c = int k"
    if "k < length ?rs" "MatchResource r (?rs ! k)" "\<forall>j < k. \<not> MatchResource r (?rs ! j)" for k
    using that Match_loop_first [of k ?rs r 0] by (simp add: Match_def)
  have bound: "0 \<le> Match r c \<and> Match r c \<le> int i"
    if i: "i < length ?rs" "MatchResource r (?rs ! i)" for i
  proof -
    from i have "\<exists>res \<in> set ?rs. MatchResource r res" by auto
    from Match_loop_some [OF this, of 0]
    obtain k where k: "k < length ?rs" "\<forall>j < k. \<not> MatchResource r (?rs ! j)" "Match r c = int k"
      by (auto simp: Match_def)
    from k(2) i have "k \<le> i" by (meson not_le)
    with k(3) show ?thesis by simp
  qed
  from none first bound show ?thesis by blast
qed

theorem Match_lowest_index_witness:
  "\<not> MatchResource \<lparr>Method = ''POST'', URL_Path = ''/'', Header = [], URL_Query = [], ctx = None\<rparr>
       \<lparr>Methods = [''GET''], Path = \<lparr>glob = None\<rparr>, Headers = [], Query = [], Effect = None\<rparr> \<and>
   MatchResource \<lparr>Method = ''POST'', URL_Path = ''/'', Header = [], URL_Query = [], ctx = None\<rparr>
       \<lparr>Methods = [], Path = \<lparr>glob = None\<rparr>, Headers = [], Query = [], Effect = None\<rparr> \<and>
   MatchResource \<lparr>Method = ''POST'', URL_Path = ''/'', Header = [], URL_Query = [], ctx = None\<rparr>
       \<lparr>Methods = [''POST''], Path = \<lparr>glob = None\<rparr>, Headers = [], Query = [], Effect = None\<rparr> \<and>
   Match \<lparr>Method = ''POST'', URL_Path = ''/'', Header = [], URL_Query = [], ctx = None\<rparr>
     \<lparr>Resources =
        [\<lparr>Methods = [''GET''], Path = \<lparr>glob = None\<rparr>, Headers = [], Query = [], Effect = None\<rparr>,
         \<lparr>Methods = [], Path = \<lparr>glob = None\<rparr>, Headers = [], Query = [], Effect = None\<rparr>,
         \<lparr>Methods = [''POST''], Path = \<lparr>glob = None\<rparr>, Headers = [], Query = [],
          Effect = None\<rparr>]\<rparr> = 1"
proof -
  let ?r = "\<lparr>Method = ''POST'', URL_Path = ''/'', Header = [], URL_Query = [], ctx = None\<rparr>"
  let ?c = "\<lparr>Resources =
        [\<lparr>Methods = [''GET''], Path = \<lparr>glob = None\<rparr>, Headers = [], Query = [], Effect = None\<rparr>,
         \<lparr>Methods = [], Path = \<lparr>glob = None\<rparr>, Headers = [], Query = [], Effect = None\<rparr>,
         \<lparr>Methods = [''POST''], Path = \<lparr>glob = None\<rparr>, Headers = [], Query = [],
          Effect = None\<rparr>]\<rparr>"
  have h: "(1::nat) < length (Resources ?c)"
    "MatchResource ?r (Resources ?c ! 1) \<and> (\<forall>j < 1. \<not> MatchResource ?r (Resources ?c ! j))"
    by (simp_all add: MatchResource_def GlobExpression_Match_def)
  from Match_lowest_index [of ?r ?c] h have "Match ?r ?c = int 1" by blast
  then show ?thesis by (simp add: MatchResource_def GlobExpression_Match_def)
qed

text \<open>
  Claim C3. \<open>MatchResource\<close> holds exactly when the method and the path are accepted
  and, for every configured header entry and every header of the request whose name the
  entry's name glob matches, the header has exactly as many values as the entry has value
  globs and its value at each position matches the glob at that position; the same for
  the query parameters. The witness is a rule asking for one value of \<open>p\<close> and a request
  with two values of \<open>p\<close>, the first of which matches: the rule does not match.
\<close>

theorem MatchResource_exact_cardinality:
  "MatchResource r c \<longleftrightarrow>
     (Methods c = [] \<or> Method r \<in> set (Methods c)) \<and>
     GlobExpression_Match (Path c) (URL_Path r) \<and>
     (\<forall>(name, values) \<in> set (Headers c). \<forall>(h, val) \<in> set (Header r).
        GlobExpression_Match name h \<longrightarrow>
          length val = length values \<and>
          (\<forall>i < length val. GlobExpression_Match (values ! i) (val ! i))) \<and>
     (\<forall>(name, values) \<in> set (Query c). \<forall>(p, val) \<in> set (URL_Query r).
        GlobExpression_Match name p \<longrightarrow>
          length val = length values \<and>
          (\<forall>i < length val. GlobExpression_Match (values ! i) (val ! i)))"
  unfolding MatchResource_def globmap_loop_iff fields_loop_iff by auto

theorem MatchResource_exact_cardinality_witness:
  "GlobExpression_Match \<lparr>glob = Some (\<lambda>s. s = ''x'')\<rparr> ''x'' \<and>
   \<not> MatchResource
       \<lparr>Method = ''GET'', URL_Path = ''/'', Header = [],
        URL_Query = [(''p'', [''x'', ''y''])], ctx = None\<rparr>
       \<lparr>Methods = [], Path = \<lparr>glob = None\<rparr>, Headers = [],
        Query = [(\<lparr>glob = Some (\<lambda>s. s = ''p'')\<rparr>, [\<lparr>glob = Some (\<lambda>s. s = ''x'')\<rparr>])],
        Effect = None\<rparr>"
  using MatchResource_exact_cardinality
    [of "\<lparr>Method = ''GET'', URL_Path = ''/'', Header = [],
          URL_Query = [(''p'', [''x'', ''y''])], ctx = None\<rparr>"
        "\<lparr>Methods = [], Path = \<lparr>glob = None\<rparr>, Headers = [],
          Query = [(\<lparr>glob = Some (\<lambda>s. s = ''p'')\<rparr>, [\<lparr>glob = Some (\<lambda>s. s = ''x'')\<rparr>])],
          Effect = None\<rparr>"]
  by (simp add: GlobExpression_Match_def)

text \<open>
  Claim C10. A configured header entry whose name glob matches no header of the request
  constrains nothing: the rule matches the request exactly when the rule without that
  entry does. The same holds for a query entry whose name glob matches no parameter of
  the request. The witness is a rule on \<open>Content-Type\<close> and a request that only carries
  \<open>X-Custom\<close>: the rule matches.
\<close>

theorem unmatched_name_is_vacuous:
  "((\<forall>(h, val) \<in> set (Header r). \<not> GlobExpression_Match name h) \<longrightarrow>
      MatchResource r (c\<lparr>Headers := xs @ (name, vals) # ys\<rparr>)
        = MatchResource r (c\<lparr>Headers := xs @ ys\<rparr>)) \<and>
   ((\<forall>(p, val) \<in> set (URL_Query r). \<not> GlobExpression_Match name p) \<longrightarrow>
      MatchResource r (c\<lparr>Query := xs @ (name, vals) # ys\<rparr>)
        = MatchResource r (c\<lparr>Query := xs @ ys\<rparr>))"
  by (simp add: MatchResource_def globmap_loop_drop_entry)

theorem unmatched_name_is_vacuous_witness:
  "MatchResource
     \<lparr>Method = ''POST'', URL_Path = ''/'',
      Header = [(''X-Custom'', [''ignore this header''])], URL_Query = [], ctx = None\<rparr>
     \<lparr>Methods = [], Path = \<lparr>glob = None\<rparr>,
      Headers = [(\<lparr>glob = Some (\<lambda>s. s = ''Content-Type'')\<rparr>,
                  [\<lparr>glob = Some (\<lambda>s. take 12 s = ''application/'')\<rparr>])],
      Query = [], Effect = None\<rparr>"
  using unmatched_name_is_vacuous
    [where r = "\<lparr>Method = ''POST'', URL_Path = ''/'',
          Header = [(''X-Custom'', [''ignore this header''])], URL_Query = [], ctx = None\<rparr>"
       and name = "\<lparr>glob = Some (\<lambda>s. s = ''Content-Type'')\<rparr>"
       and c = "\<lparr>Methods = [], Path = \<lparr>glob = None\<rparr>, Headers = [], Query = [],
          Effect = None\<rparr>"
       and xs = "[]" and ys = "[]"
       and vals = "[\<lparr>glob = Some (\<lambda>s. take 12 s = ''application/'')\<rparr>]"]
  by (simp add: GlobExpression_Match_def MatchResource_def)

text \<open>
  Claim C7. The zero value of \<open>GlobExpression\<close> (its glob pointer is \<open>nil\<close>) matches
  every string, the empty string included; a rule with no methods, no headers, no query
  entries and the zero-value path therefore matches every request.
\<close>

theorem uninitialized_glob_matches_all:
  "GlobExpression_Match \<lparr>glob = None\<rparr> s \<and>
   GlobExpression_Match \<lparr>glob = None\<rparr> [] \<and>
   MatchResource r \<lparr>Methods = [], Path = \<lparr>glob = None\<rparr>, Headers = [], Query = [],
                    Effect = e\<rparr>"
  by (simp add: GlobExpression_Match_def MatchResource_def)

theorem uninitialized_glob_matches_all_witness:
  "GlobExpression_Match \<lparr>glob = None\<rparr> ''test''"
  using uninitialized_glob_matches_all [of "''test''"] by simp

section \<open>Properties of the configuration\<close>

text \<open>
  Claim C4, as the code has it. \<open>DurRange.Validate\<close> accepts a range exactly when
  \<open>min <= max\<close>; it does not look at the sign of either bound.
\<close>

theorem DurRange_Validate_accepts_iff:
  "DurRange_Validate d = None \<longleftrightarrow> Min_d d \<le> Max_d d"
  by (simp add: DurRange_Validate_def)

theorem DurRange_Validate_accepts_iff_witness:
  "DurRange_Validate \<lparr>Min_d = 10, Max_d = 11\<rparr> = None \<and>
   DurRange_Validate \<lparr>Min_d = 1, Max_d = 0\<rparr> \<noteq> None"
  using DurRange_Validate_accepts_iff [of "\<lparr>Min_d = 10, Max_d = 11\<rparr>"]
    DurRange_Validate_accepts_iff [of "\<lparr>Min_d = 1, Max_d = 0\<rparr>"]
  by simp

text \<open>
  Claim C4, as stated, fails: the range with \<open>min = -10\<close> and \<open>max = 1\<close> is accepted
  (as \<open>TestDurRange\<close> requires) although its minimum is negative.
\<close>

theorem DurRange_Validate_negative_min:
  "DurRange_Validate \<lparr>Min_d = - 10, Max_d = 1\<rparr> = None \<and>
   Min_d \<lparr>Min_d = - 10, Max_d = 1\<rparr> < 0"
  by (simp add: DurRange_Validate_def)

section \<open>Properties of the randomness source\<close>

text \<open>
  Claim C9. \<open>NewSeed\<close> panics on every string whose length is not 32, and on a string
  of length 32 it returns exactly the bytes of the string.
\<close>

theorem NewSeed_exactly_32:
  "(length s \<noteq> 32 \<longrightarrow> NewSeed s = Inl (Panic ''seed must be a 32-byte long string'')) \<and>
   (length s = 32 \<longrightarrow> NewSeed s = Inr s)"
  by (simp add: NewSeed_def copy_bytes_def)

theorem NewSeed_exactly_32_witness:
  "NewSeed ''too short'' = Inl (Panic ''seed must be a 32-byte long string'') \<and>
   NewSeed ''0123456789abcdef0123456789abcdef'' = Inr ''0123456789abcdef0123456789abcdef''"
  using NewSeed_exactly_32 [of "''too short''"]
    NewSeed_exactly_32 [of "''0123456789abcdef0123456789abcdef''"]
  by simp

text \<open>
  The generator's words stay in range: every \<open>uint32\<close> of a block and every
  \<open>uint64\<close> of the buffer, whatever the seed and the counter.
\<close>

lemma is_uint32_add32: "is_uint32 (add32 a b)"
  by (simp add: is_uint32_def add32_def)

lemma is_uint32_xor: "is_uint32 a \<Longrightarrow> is_uint32 b \<Longrightarrow> is_uint32 (a XOR b)"
  using XOR_upper [of a 32 b] by (simp add: is_uint32_def)

lemma is_uint32_rotl32:
  assumes "is_uint32 d"
  shows "is_uint32 (rotl32 k d)"
proof -
  from assms have d: "0 \<le> d" "d < 2 ^ 32" by (simp_all add: is_uint32_def)
  have a: "0 \<le> (d * 2 ^ k) mod 2 ^ 32" "(d * 2 ^ k) mod 2 ^ 32 < 2 ^ 32" by simp_all
  have "d div 2 ^ (32 - k) \<le> d div 1"
    using d(1) by (intro zdiv_mono2) simp_all
  with d have b: "0 \<le> d div 2 ^ (32 - k)" "d div 2 ^ (32 - k) < 2 ^ 32"
    by (simp_all add: pos_imp_zdiv_nonneg_iff)
  from a b OR_upper [of "(d * 2 ^ k) mod 2 ^ 32" 32 "d div 2 ^ (32 - k)"] show ?thesis
    unfolding rotl32_def is_uint32_def by simp
qed

lemma qr_ad_uint32: "all4 is_uint32 x \<Longrightarrow> all4 is_uint32 (qr_ad k x)"
  by (cases x) (simp add: is_uint32_add32 is_uint32_xor is_uint32_rotl32)

lemma qr_cb_uint32: "all4 is_uint32 x \<Longrightarrow> all4 is_uint32 (qr_cb k x)"
  by (cases x) (simp add: is_uint32_add32 is_uint32_xor is_uint32_rotl32)

lemma qr_uint32: "all4 is_uint32 x \<Longrightarrow> all4 is_uint32 (qr x)"
  by (simp add: qr_def qr_ad_uint32 qr_cb_uint32)

lemma list_all_update: "list_all P xs \<Longrightarrow> P a \<Longrightarrow> list_all P (xs[i := a])"
  using set_update_subset_insert [of xs i a] by (auto simp: list_all_iff)

lemma put4_block: "is_block st \<Longrightarrow> all4 is_uint32 x \<Longrightarrow> is_block (put4 i j k l x st)"
  by (cases x) (simp add: is_block_def list_all_update)

lemma qr_at_block:
  assumes "is_block st" "i < 16" "j < 16" "k < 16" "l < 16"
  shows "is_block (qr_at i j k l st)"
proof -
  from assms have "all4 is_uint32 (st ! i, st ! j, st ! k, st ! l)"
    by (simp add: is_block_def list_all_length)
  then show ?thesis unfolding qr_at_def using assms(1) by (intro put4_block qr_uint32)
qed

lemma rounds2_block: "is_block st \<Longrightarrow> is_block (rounds2 st)"
  unfolding rounds2_def by (intro qr_at_block) simp_all

lemma load_column_block:
  assumes "i < 4"
  shows "is_block (load_column (setup_block seed counter) i)"
proof -
  from assms have "i = 0 \<or> i = 1 \<or> i = 2 \<or> i = 3" by auto
  then show ?thesis
    unfolding is_block_def load_column_def setup_block_def
    by (elim disjE) (simp_all add: is_uint32_def add32_def)
qed

lemma store_column_block:
  assumes "is_block y"
  shows "is_block (store_column x y)"
proof -
  from assms have "\<forall>n < 16. is_uint32 (y ! n)"
    by (simp add: is_block_def list_all_length)
  then show ?thesis
    unfolding is_block_def store_column_def by (simp add: is_uint32_add32)
qed

lemma block_column_block: "i < 4 \<Longrightarrow> is_block (block_column (setup_block seed counter) i)"
  unfolding block_column_def
  by (intro store_column_block rounds2_block load_column_block)

lemma buf_word_uint64:
  assumes "length cols = 4" "list_all is_block cols" "k < 32"
  shows "is_uint64 (buf_word cols k)"
proof -
  let ?lo = "cols ! (2 * (k mod 2)) ! (k div 2)"
  let ?hi = "cols ! (2 * (k mod 2) + 1) ! (k div 2)"
  have i: "2 * (k mod 2) < 4" "2 * (k mod 2) + 1 < 4" "k div 2 < 16"
    using assms(3) by auto
  with assms have "is_block (cols ! (2 * (k mod 2)))" "is_block (cols ! (2 * (k mod 2) + 1))"
    by (simp_all add: list_all_length)
  with i(3) have "is_uint32 ?lo" "is_uint32 ?hi"
    by (simp_all add: is_block_def list_all_length)
  then have lo: "0 \<le> ?lo" "?lo < 2 ^ 64" and hi: "0 \<le> ?hi * 2 ^ 32" "?hi * 2 ^ 32 < 2 ^ 64"
    by (simp_all add: is_uint32_def)
  with OR_upper [of ?lo 64 "?hi * 2 ^ 32"] show ?thesis
    unfolding buf_word_def is_uint64_def by simp
qed

lemma block_generic_valid:
  "length (block_generic seed counter) = 32 \<and> list_all is_uint64 (block_generic seed counter)"
proof -
  let ?cols = "map (block_column (setup_block seed counter)) [0, 1, 2, 3]"
  have "length ?cols = 4" "list_all is_block ?cols"
    by (simp_all add: block_column_block)
  then have "\<forall>k < 32. is_uint64 (buf_word ?cols k)"
    by (auto intro: buf_word_uint64)
  then show ?thesis by (simp add: block_generic_def list_all_iff)
qed

lemma valid_State_Init: "valid_State (NewSourceChaCha8 seed)"
  by (simp add: NewSourceChaCha8_def Init_def Init64_def valid_State_def block_generic_valid)

lemma valid_State_Refill: "valid_State (Refill s)"
  by (simp add: Refill_def Let_def valid_State_def block_generic_valid)

lemma Next_valid:
  assumes "valid_State s" "Next s = (x, True, s')"
  shows "is_uint64 x \<and> valid_State s'"
proof -
  have "0 \<le> st_i s AND 31" "st_i s AND 31 \<le> 31"
    by (simp_all add: AND_upper2)
  then have "nat (st_i s AND 31) < 32" by linarith
  with assms(1) have "is_uint64 (st_buf s ! nat (st_i s AND 31))"
    by (simp add: valid_State_def list_all_length)
  with assms show ?thesis by (auto simp: Next_def valid_State_def split: if_splits)
qed

lemma Next_unchanged: "Next s = (x, False, s') \<Longrightarrow> s' = s"
  by (auto simp: Next_def split: if_splits)

lemma Next_Refill: "\<exists>x s'. Next (Refill s) = (x, True, s')"
  by (simp add: Next_def Refill_def Let_def)

lemma Uint64_valid:
  assumes "valid_State s" "Uint64 s = (u, s')"
  shows "is_uint64 u \<and> valid_State s'"
proof (cases "Next s")
  case (fields x ok s1)
  show ?thesis
  proof (cases ok)
    case True
    with fields assms show ?thesis by (simp add: Uint64.simps Next_valid)
  next
    case False
    with fields have s1: "s1 = s" by (simp add: Next_unchanged)
    obtain y s2 where n2: "Next (Refill s) = (y, True, s2)" using Next_Refill by blast
    from fields False s1 assms(2) have "Uint64 (Refill s) = (u, s')"
      by (simp add: Uint64.simps [of s])
    with n2 have "u = y" "s' = s2" by (simp_all add: Uint64.simps [of "Refill s"])
    with n2 Next_valid [OF valid_State_Refill] show ?thesis by blast
  qed
qed

lemma div_2_64_bound: "(x::int) < n * 2 ^ 64 \<Longrightarrow> x div 2 ^ 64 < n"
  by simp

lemma div_2_64_nonneg: "0 \<le> (x::int) \<Longrightarrow> 0 \<le> x div 2 ^ 64"
  by simp

lemma Mul64_hi_range:
  assumes "0 \<le> u" "u < 2 ^ 64" "0 < n"
  shows "0 \<le> fst (Mul64 u n) \<and> fst (Mul64 u n) < n"
proof -
  from assms have "u * n < 2 ^ 64 * n" by (intro mult_strict_right_mono)
  then have "u * n < n * 2 ^ 64" by (simp add: mult.commute)
  then have "(u * n) div 2 ^ 64 < n" by (rule div_2_64_bound)
  moreover from assms have "0 \<le> u * n" by simp
  then have "0 \<le> (u * n) div 2 ^ 64" by (rule div_2_64_nonneg)
  ultimately show ?thesis by (simp add: Mul64_def)
qed

text \<open>
  The draws of \<open>uint64n\<close>, \<open>Int64N\<close> and \<open>Dur\<close>, whenever they return.
\<close>

lemma reject_loop_range:
  assumes "reject_loop n thresh hi lo s = Some y"
  shows "valid_State s \<and> 0 \<le> hi \<and> hi < n \<longrightarrow>
         0 \<le> fst y \<and> fst y < n \<and> valid_State (snd y)"
proof (rule reject_loop.raw_induct
    [where P = "\<lambda>n thresh hi lo s y. valid_State s \<and> 0 \<le> hi \<and> hi < n \<longrightarrow>
                  0 \<le> fst y \<and> fst y < n \<and> valid_State (snd y)", OF _ assms])
  fix f :: "int \<Rightarrow> int \<Rightarrow> int \<Rightarrow> int \<Rightarrow> State \<Rightarrow> (int \<times> State) option"
    and n thresh hi lo s y
  assume IH: "\<And>n thresh hi lo s y. f n thresh hi lo s = Some y \<Longrightarrow>
                valid_State s \<and> 0 \<le> hi \<and> hi < n \<longrightarrow>
                0 \<le> fst y \<and> fst y < n \<and> valid_State (snd y)"
    and eq: "(if lo < thresh
              then case Uint64 s of
                     (u, s') \<Rightarrow> f n thresh (fst (Mul64 u n)) (snd (Mul64 u n)) s'
              else Some (hi, s)) = Some y"
  show "valid_State s \<and> 0 \<le> hi \<and> hi < n \<longrightarrow>
        0 \<le> fst y \<and> fst y < n \<and> valid_State (snd y)"
  proof (intro impI)
    assume pre: "valid_State s \<and> 0 \<le> hi \<and> hi < n"
    show "0 \<le> fst y \<and> fst y < n \<and> valid_State (snd y)"
    proof (cases "lo < thresh")
      case False
      with eq pre show ?thesis by auto
    next
      case True
      obtain u s1 where u: "Uint64 s = (u, s1)" by (cases "Uint64 s")
      with pre Uint64_valid have v: "is_uint64 u" "valid_State s1" by blast+
      from pre have "0 < n" by simp
      with v(1) Mul64_hi_range [of u n]
      have hi': "0 \<le> fst (Mul64 u n) \<and> fst (Mul64 u n) < n" by (simp add: is_uint64_def)
      from True u eq
      have "f n thresh (fst (Mul64 u n)) (snd (Mul64 u n)) s1 = Some y" by simp
      from IH [OF this] hi' v(2) show ?thesis by blast
    qed
  qed
qed

lemma uint64n_range:
  assumes "valid_State s" "0 < n" "n < 2 ^ 64" "uint64n s n = Some (x, s')"
  shows "0 \<le> x \<and> x < n \<and> valid_State s'"
proof -
  obtain u s1 where u: "Uint64 s = (u, s1)" by (cases "Uint64 s")
  with assms(1) Uint64_valid have v: "is_uint64 u" "valid_State s1" by blast+
  from assms(2,3) have n1: "(n - 1) mod 2 ^ 64 = n - 1" by simp
  note un = uint64n_def [of s n, unfolded n1]
  show ?thesis
  proof (cases "n AND (n - 1) = 0")
    case True
    with u assms(4) have x: "x = u AND (n - 1)" "s' = s1" by (simp_all add: un)
    from assms(2) have "u AND (n - 1) \<le> n - 1" by (intro AND_upper2) simp
    moreover from assms(2) have "0 \<le> u AND (n - 1)" by simp
    ultimately show ?thesis using x v(2) by simp
  next
    case False
    from v(1) assms(2) Mul64_hi_range [of u n]
    have hi: "0 \<le> fst (Mul64 u n) \<and> fst (Mul64 u n) < n" by (simp add: is_uint64_def)
    show ?thesis
    proof (cases "snd (Mul64 u n) < n")
      case True
      with False u assms(4)
      have "reject_loop n ((- n) mod 2 ^ 64 mod n) (fst (Mul64 u n)) (snd (Mul64 u n)) s1
              = Some (x, s')"
        by (simp add: un split_beta)
      from reject_loop_range [OF this] v(2) hi show ?thesis by simp
    next
      case nlt: False
      with False u assms(4) have "x = fst (Mul64 u n)" "s' = s1"
        by (simp_all add: un split_beta)
      with hi v(2) show ?thesis by simp
    qed
  qed
qed

lemma wrap_int64_id: "is_int64 x \<Longrightarrow> wrap_int64 x = x"
  by (simp add: wrap_int64_def is_int64_def)

lemma Int64N_range:
  assumes "valid_State s" "0 < n" "n < 2 ^ 63" "Int64N s n = Some r"
  shows "\<exists>x s'. r = Inr (x, s') \<and> 0 \<le> x \<and> x < n \<and> valid_State s'"
proof -
  from assms(2,3) have n: "n mod 2 ^ 64 = n" "n < 2 ^ 64" by simp_all
  from assms(2,4) n obtain x s' where x: "uint64n s n = Some (x, s')" "r = Inr (wrap_int64 x, s')"
    by (auto simp: Int64N_def split: option.splits)
  from uint64n_range [OF assms(1,2) n(2) x(1)]
  have rg: "0 \<le> x" "x < n" "valid_State s'" by simp_all
  with assms(3) have "wrap_int64 x = x" by (intro wrap_int64_id) (simp add: is_int64_def)
  with x rg show ?thesis by simp
qed

lemma Dur_degenerate: "dmax \<le> dmin \<Longrightarrow> Dur s dmin dmax = Some (Inr (dmin, s))"
  by (simp add: Dur_def)

lemma Dur_range:
  assumes "valid_State s" "is_int64 dmin" "is_int64 dmax" "dmin < dmax" "dmax - dmin < 2 ^ 63"
    and "Dur s dmin dmax = Some r"
  shows "\<exists>d s'. r = Inr (d, s') \<and> dmin \<le> d \<and> d < dmax \<and> valid_State s'"
proof -
  from assms(4,5) have delta: "wrap_int64 (dmax - dmin) = dmax - dmin"
    by (intro wrap_int64_id) (simp add: is_int64_def)
  from assms(4,6) delta obtain r' where r': "Int64N s (dmax - dmin) = Some r'"
    by (auto simp: Dur_def split: option.splits)
  from Int64N_range [OF assms(1) _ assms(5) r'] assms(4)
  obtain x s' where x: "r' = Inr (x, s')" "0 \<le> x" "x < dmax - dmin" "valid_State s'"
    by auto
  from x(2,3) assms(2,3) have "wrap_int64 (dmin + x) = dmin + x"
    by (intro wrap_int64_id) (simp add: is_int64_def)
  with assms(4,6) delta r' x show ?thesis by (auto simp: Dur_def)
qed

lemma wrap_int64_overflow:
  assumes "2 ^ 63 \<le> x" "x < 2 ^ 64"
  shows "wrap_int64 x = x - 2 ^ 64"
proof -
  have "(x + 2 ^ 63) mod 2 ^ 64 = (x + 2 ^ 63 - 2 ^ 64) mod 2 ^ 64"
    by (simp only: minus_mod_self2)
  also from assms have "\<dots> = x + 2 ^ 63 - 2 ^ 64" by (intro mod_pos_pos_trivial) simp_all
  finally show ?thesis by (simp add: wrap_int64_def)
qed

lemma Dur_overflow_panics:
  assumes "is_int64 dmin" "is_int64 dmax" "dmin < dmax" "2 ^ 63 \<le> dmax - dmin"
  shows "Dur s dmin dmax = Some (Inl (Panic ''invalid argument to Int64N''))"
proof -
  from assms have "wrap_int64 (dmax - dmin) = dmax - dmin - 2 ^ 64"
    by (intro wrap_int64_overflow) (simp_all add: is_int64_def)
  with assms show ?thesis by (simp add: Dur_def Int64N_def is_int64_def)
qed

text \<open>
  When the draws return: the rejection loop ends exactly when the stream of the generator
  holds a word that it accepts.
\<close>

lemma draws_Suc': "draws k (snd (Uint64 s)) = draws (Suc k) s"
  by simp

lemma reject_loop_returns:
  assumes "lo < thresh \<longrightarrow> \<not> snd (Mul64 (fst (Uint64 (draws k s))) n) < thresh"
  shows "\<exists>y. reject_loop n thresh hi lo s = Some y"
  using assms
proof (induction k arbitrary: s hi lo)
  case 0
  show ?case
  proof (cases "lo < thresh")
    case False
    then show ?thesis by (simp add: reject_loop.simps)
  next
    case True
    with 0 have "\<not> snd (Mul64 (fst (Uint64 s)) n) < thresh" by simp
    with True show ?thesis
      by (subst reject_loop.simps) (simp add: split_beta reject_loop.simps)
  qed
next
  case (Suc k)
  show ?case
  proof (cases "lo < thresh")
    case False
    then show ?thesis by (simp add: reject_loop.simps)
  next
    case True
    with Suc.prems
    have "\<not> snd (Mul64 (fst (Uint64 (draws k (snd (Uint64 s))))) n) < thresh" by simp
    then have "\<exists>y. reject_loop n thresh (fst (Mul64 (fst (Uint64 s)) n))
                 (snd (Mul64 (fst (Uint64 s)) n)) (snd (Uint64 s)) = Some y"
      by (intro Suc.IH) simp
    with True show ?thesis
      by (subst reject_loop.simps) (simp add: split_beta)
  qed
qed

lemma reject_loop_accepted:
  assumes "reject_loop n thresh hi lo s = Some y"
  shows "lo < thresh \<longrightarrow> (\<exists>k. \<not> snd (Mul64 (fst (Uint64 (draws k s))) n) < thresh)"
proof (rule reject_loop.raw_induct
    [where P = "\<lambda>n thresh hi lo s y. lo < thresh \<longrightarrow>
                  (\<exists>k. \<not> snd (Mul64 (fst (Uint64 (draws k s))) n) < thresh)", OF _ assms])
  fix f :: "int \<Rightarrow> int \<Rightarrow> int \<Rightarrow> int \<Rightarrow> State \<Rightarrow> (int \<times> State) option"
    and n thresh hi lo s y
  assume IH: "\<And>n thresh hi lo s y. f n thresh hi lo s = Some y \<Longrightarrow>
                lo < thresh \<longrightarrow> (\<exists>k. \<not> snd (Mul64 (fst (Uint64 (draws k s))) n) < thresh)"
    and eq: "(if lo < thresh
              then case Uint64 s of
                     (u, s') \<Rightarrow> f n thresh (fst (Mul64 u n)) (snd (Mul64 u n)) s'
              else Some (hi, s)) = Some y"
  show "lo < thresh \<longrightarrow> (\<exists>k. \<not> snd (Mul64 (fst (Uint64 (draws k s))) n) < thresh)"
  proof
    assume lt: "lo < thresh"
    with eq have call: "f n thresh (fst (Mul64 (fst (Uint64 s)) n))
        (snd (Mul64 (fst (Uint64 s)) n)) (snd (Uint64 s)) = Some y"
      by (simp add: split_beta)
    show "\<exists>k. \<not> snd (Mul64 (fst (Uint64 (draws k s))) n) < thresh"
    proof (cases "snd (Mul64 (fst (Uint64 s)) n) < thresh")
      case False
      then have "\<not> snd (Mul64 (fst (Uint64 (draws 0 s))) n) < thresh" by simp
      then show ?thesis by blast
    next
      case True
      with IH [OF call] obtain k
        where "\<not> snd (Mul64 (fst (Uint64 (draws k (snd (Uint64 s))))) n) < thresh" by blast
      then have "\<not> snd (Mul64 (fst (Uint64 (draws (Suc k) s))) n) < thresh" by simp
      then show ?thesis by blast
    qed
  qed
qed

lemma thresh_less: "0 < n \<Longrightarrow> (- n) mod 2 ^ 64 mod n < (n::int)"
  by simp

lemma uint64n_returns_iff:
  assumes "0 < n" "n < 2 ^ 64" "n AND (n - 1) \<noteq> 0"
  shows "(\<exists>y. uint64n s n = Some y) \<longleftrightarrow> (\<exists>k. accepts n (draws k s))"
proof -
  let ?t = "(- n) mod 2 ^ 64 mod n"
  let ?u = "fst (Uint64 s)" let ?s1 = "snd (Uint64 s)"
  from assms(1,2) have n1: "(n - 1) mod 2 ^ 64 = n - 1" by simp
  have un: "uint64n s n =
      (if snd (Mul64 ?u n) < n
       then reject_loop n ?t (fst (Mul64 ?u n)) (snd (Mul64 ?u n)) ?s1
       else Some (fst (Mul64 ?u n), ?s1))"
    using assms(3) unfolding uint64n_def n1 by (simp add: split_beta)
  have t: "?t < n" using assms(1) by (rule thresh_less)
  show ?thesis
  proof
    assume "\<exists>y. uint64n s n = Some y"
    then obtain y where y: "uint64n s n = Some y" ..
    show "\<exists>k. accepts n (draws k s)"
    proof (cases "snd (Mul64 ?u n) < ?t")
      case False
      then have "accepts n (draws 0 s)" by (simp add: accepts_def)
      then show ?thesis ..
    next
      case True
      with t have "snd (Mul64 ?u n) < n" by simp
      with y un have "reject_loop n ?t (fst (Mul64 ?u n)) (snd (Mul64 ?u n)) ?s1 = Some y"
        by simp
      from reject_loop_accepted [OF this] True
      obtain k where "\<not> snd (Mul64 (fst (Uint64 (draws k ?s1))) n) < ?t" by blast
      then have "accepts n (draws (Suc k) s)" by (simp add: accepts_def)
      then show ?thesis ..
    qed
  next
    assume "\<exists>k. accepts n (draws k s)"
    then obtain k where k: "accepts n (draws k s)" ..
    show "\<exists>y. uint64n s n = Some y"
    proof (cases "snd (Mul64 ?u n) < n")
      case False
      with un show ?thesis by simp
    next
      case True
      have "\<exists>y. reject_loop n ?t (fst (Mul64 ?u n)) (snd (Mul64 ?u n)) ?s1 = Some y"
      proof (cases k)
        case 0
        with k have "\<not> snd (Mul64 ?u n) < ?t" by (simp add: accepts_def)
        then show ?thesis by (simp add: reject_loop.simps)
      next
        case (Suc k')
        with k have "\<not> snd (Mul64 (fst (Uint64 (draws k' ?s1))) n) < ?t"
          by (simp add: accepts_def)
        then show ?thesis by (intro reject_loop_returns [where k = k']) blast
      qed
      with True un show ?thesis by simp
    qed
  qed
qed

lemma Dur_returns_iff:
  assumes "dmin < dmax" "dmax - dmin < 2 ^ 63" "(dmax - dmin) AND (dmax - dmin - 1) \<noteq> 0"
  shows "Dur s dmin dmax \<noteq> None \<longleftrightarrow> (\<exists>k. accepts (dmax - dmin) (draws k s))"
proof -
  let ?n = "dmax - dmin"
  from assms(1,2) have delta: "wrap_int64 ?n = ?n"
    by (intro wrap_int64_id) (simp add: is_int64_def)
  from assms(1,2) have n: "0 < ?n" "?n < 2 ^ 64" "?n mod 2 ^ 64 = ?n" by simp_all
  have "Dur s dmin dmax \<noteq> None \<longleftrightarrow> (\<exists>y. uint64n s ?n = Some y)"
    using assms(1) n by (auto simp: Dur_def delta Int64N_def split: option.splits)
  with uint64n_returns_iff [OF n(1,2) assms(3)] show ?thesis by simp
qed

text \<open>
  The first buffer of the generator for the two seeds of the repository's tests,
  evaluated with the code equations.
\<close>

lemma block_generic_seed_A:
  "block_generic
     [3978425819141910832, 7378413942531504440, 3978425819141910832,
     7378413942531504440] 0 =
     [8527105616437621194, 12636006458118508911, 7724943127070295219,
      8205025685938529692, 16439516398067361148, 16323753561261945048,
      10355241533655524587, 11357027349597073774, 492573987714535667,
      5481429199219434617, 14800512559134258298, 9552476418904825382,
      3679300224828087384, 2175261621604021773, 8848931376430927697,
      16636861772952492889, 11993219013871163029, 3436325675324537721,
      1431595222674519206, 10404326292917703247, 10001357459917226174,
      708622965580394290, 1882832090538810114, 7365821418095385283,
      12372723845366457791, 5253426504725244478, 934050516611078778,
      5481436636030262481, 8839558335834129436, 9390360389496348351,
      10358089646824555994, 13170966259402306317]"
  by code_simp

lemma Init_seed_A:
  "Init ''0123456789abcdef0123456789abcdef'' =
     \<lparr>st_seed = [3978425819141910832, 7378413942531504440, 3978425819141910832,
                 7378413942531504440],
      st_buf =
        [8527105616437621194, 12636006458118508911, 7724943127070295219,
         8205025685938529692, 16439516398067361148, 16323753561261945048,
         10355241533655524587, 11357027349597073774, 492573987714535667,
         5481429199219434617, 14800512559134258298, 9552476418904825382,
         3679300224828087384, 2175261621604021773, 8848931376430927697,
         16636861772952492889, 11993219013871163029, 3436325675324537721,
         1431595222674519206, 10404326292917703247, 10001357459917226174,
         708622965580394290, 1882832090538810114, 7365821418095385283,
         12372723845366457791, 5253426504725244478, 934050516611078778,
         5481436636030262481, 8839558335834129436, 9390360389496348351,
         10358089646824555994, 13170966259402306317],
      st_i = 0, st_n = 32, st_c = 0\<rparr>"
  by (simp add: Init_def Init64_def LEUint64_def block_generic_seed_A)

lemma block_generic_seed_B:
  "block_generic
     [4051376414998685030, 3472611983179986487, 4051376414998685030,
     3472611983179986487] 0 =
     [7279758057072408059, 10906930126676196959, 14731890072329426612,
      14877325293333651317, 15263009063346716020, 8260714233761709341,
      18186510142659473970, 12736717027042423645, 240495755532617845,
      8306851717604252546, 17517135790969310513, 9130919479954875009,
      12795330379527532266, 8071800169371137246, 13924018000987545714,
      2566183566201797702, 11626097250635724391, 5743362449810803583,
      17155825652858857190, 11596821796959568477, 16848728834364918440,
      10918034544177734588, 12743415989358085119, 2818624123979264954,
      16903278555933233645, 2860032841101712537, 13752091246290963025,
      16785681409488349231, 17461926814807381000, 60099940094153009,
      1589564584907934576, 3837925599322681894]"
  by code_simp

lemma Init_seed_B:
  "Init ''fedcba9876543210fedcba9876543210'' =
     \<lparr>st_seed = [4051376414998685030, 3472611983179986487, 4051376414998685030,
                 3472611983179986487],
      st_buf =
        [7279758057072408059, 10906930126676196959, 14731890072329426612,
         14877325293333651317, 15263009063346716020, 8260714233761709341,
         18186510142659473970, 12736717027042423645, 240495755532617845,
         8306851717604252546, 17517135790969310513, 9130919479954875009,
         12795330379527532266, 8071800169371137246, 13924018000987545714,
         2566183566201797702, 11626097250635724391, 5743362449810803583,
         17155825652858857190, 11596821796959568477, 16848728834364918440,
         10918034544177734588, 12743415989358085119, 2818624123979264954,
         16903278555933233645, 2860032841101712537, 13752091246290963025,
         16785681409488349231, 17461926814807381000, 60099940094153009,
         1589564584907934576, 3837925599322681894],
      st_i = 0, st_n = 32, st_c = 0\<rparr>"
  by (simp add: Init_def Init64_def LEUint64_def block_generic_seed_B)

text \<open>
  Claim C6. Two runs that build their seed from the same string, each its own source from
  its seed, and make the same calls, have the same result: the same outputs and final
  state, the same panic, or neither returns. The model has no other input: a source is a
  function of its seed and each call a function of the state and its arguments. For the
  two seeds of \<open>TestSource\<close> a fresh source yields, in call order,
  \<open>Bool() = false\<close>, \<open>Dur(1s, 1s) = 1s\<close> (the generator is left as it was),
  \<open>Dur(1s, 2s) = 1.684999282s\<close> and \<open>Dur(0, 1h) = 25m7.572021725s\<close> for the
  seed \<open>0123456789abcdef0123456789abcdef\<close>, and \<open>true\<close>, \<open>1s\<close>,
  \<open>1.591265866s\<close> and \<open>47m55.022499822s\<close> for the seed
  \<open>fedcba9876543210fedcba9876543210\<close>, each draw moving the generator one word
  forward in its buffer.
\<close>

theorem Source_reproducible:
  "(\<forall>str seed1 seed2 calls.
      NewSeed str = Inr seed1 \<and> NewSeed str = Inr seed2 \<longrightarrow>
      run_calls (NewSourceChaCha8 seed1) calls = run_calls (NewSourceChaCha8 seed2) calls) \<and>
   NewSeed ''0123456789abcdef0123456789abcdef'' = Inr ''0123456789abcdef0123456789abcdef'' \<and>
   (let s0 = NewSourceChaCha8 ''0123456789abcdef0123456789abcdef'' in
      Bool s0 = Some (Inr (False, s0\<lparr>st_i := 1\<rparr>)) \<and>
      Dur (s0\<lparr>st_i := 1\<rparr>) 1000000000 1000000000 = Some (Inr (1000000000, s0\<lparr>st_i := 1\<rparr>)) \<and>
      Dur (s0\<lparr>st_i := 1\<rparr>) 1000000000 2000000000 = Some (Inr (1684999282, s0\<lparr>st_i := 2\<rparr>)) \<and>
      Dur (s0\<lparr>st_i := 2\<rparr>) 0 3600000000000 = Some (Inr (1507572021725, s0\<lparr>st_i := 3\<rparr>)) \<and>
      run_calls s0
        [Call_Bool, Call_Dur 1000000000 1000000000, Call_Dur 1000000000 2000000000,
        Call_Dur 0 3600000000000] =
        Some (Inr ([Out_Bool False, Out_Dur 1000000000, Out_Dur 1684999282,
                    Out_Dur 1507572021725], s0\<lparr>st_i := 3\<rparr>))) \<and>
   NewSeed ''fedcba9876543210fedcba9876543210'' = Inr ''fedcba9876543210fedcba9876543210'' \<and>
   (let s0 = NewSourceChaCha8 ''fedcba9876543210fedcba9876543210'' in
      Bool s0 = Some (Inr (True, s0\<lparr>st_i := 1\<rparr>)) \<and>
      Dur (s0\<lparr>st_i := 1\<rparr>) 1000000000 1000000000 = Some (Inr (1000000000, s0\<lparr>st_i := 1\<rparr>)) \<and>
      Dur (s0\<lparr>st_i := 1\<rparr>) 1000000000 2000000000 = Some (Inr (1591265866, s0\<lparr>st_i := 2\<rparr>)) \<and>
      Dur (s0\<lparr>st_i := 2\<rparr>) 0 3600000000000 = Some (Inr (2875022499822, s0\<lparr>st_i := 3\<rparr>)) \<and>
      run_calls s0
        [Call_Bool, Call_Dur 1000000000 1000000000, Call_Dur 1000000000 2000000000,
        Call_Dur 0 3600000000000] =
        Some (Inr ([Out_Bool True, Out_Dur 1000000000, Out_Dur 1591265866,
                    Out_Dur 2875022499822], s0\<lparr>st_i := 3\<rparr>)))"
proof -
  have two_runs: "run_calls (NewSourceChaCha8 seed1) calls = run_calls (NewSourceChaCha8 seed2) calls"
    if "NewSeed str = Inr seed1" "NewSeed str = Inr seed2" for str seed1 seed2 calls
    using that by simp
  have a: "NewSeed ''0123456789abcdef0123456789abcdef'' = Inr ''0123456789abcdef0123456789abcdef''"
    and b: "NewSeed ''fedcba9876543210fedcba9876543210'' = Inr ''fedcba9876543210fedcba9876543210''"
    by (simp_all add: NewSeed_def copy_bytes_def)
  have fa: "let s0 = NewSourceChaCha8 ''0123456789abcdef0123456789abcdef'' in
      Bool s0 = Some (Inr (False, s0\<lparr>st_i := 1\<rparr>)) \<and>
      Dur (s0\<lparr>st_i := 1\<rparr>) 1000000000 1000000000 = Some (Inr (1000000000, s0\<lparr>st_i := 1\<rparr>)) \<and>
      Dur (s0\<lparr>st_i := 1\<rparr>) 1000000000 2000000000 = Some (Inr (1684999282, s0\<lparr>st_i := 2\<rparr>)) \<and>
      Dur (s0\<lparr>st_i := 2\<rparr>) 0 3600000000000 = Some (Inr (1507572021725, s0\<lparr>st_i := 3\<rparr>)) \<and>
      run_calls s0
        [Call_Bool, Call_Dur 1000000000 1000000000, Call_Dur 1000000000 2000000000,
        Call_Dur 0 3600000000000] =
        Some (Inr ([Out_Bool False, Out_Dur 1000000000, Out_Dur 1684999282,
                    Out_Dur 1507572021725], s0\<lparr>st_i := 3\<rparr>))"
    by (simp add: NewSourceChaCha8_def Init_seed_A Bool_def Dur_def
        IntN_def Int64N_def uint64n_def Uint64.simps Next_def Mul64_def wrap_int64_def Let_def)
  have fb: "let s0 = NewSourceChaCha8 ''fedcba9876543210fedcba9876543210'' in
      Bool s0 = Some (Inr (True, s0\<lparr>st_i := 1\<rparr>)) \<and>
      Dur (s0\<lparr>st_i := 1\<rparr>) 1000000000 1000000000 = Some (Inr (1000000000, s0\<lparr>st_i := 1\<rparr>)) \<and>
      Dur (s0\<lparr>st_i := 1\<rparr>) 1000000000 2000000000 = Some (Inr (1591265866, s0\<lparr>st_i := 2\<rparr>)) \<and>
      Dur (s0\<lparr>st_i := 2\<rparr>) 0 3600000000000 = Some (Inr (2875022499822, s0\<lparr>st_i := 3\<rparr>)) \<and>
      run_calls s0
        [Call_Bool, Call_Dur 1000000000 1000000000, Call_Dur 1000000000 2000000000,
        Call_Dur 0 3600000000000] =
        Some (Inr ([Out_Bool True, Out_Dur 1000000000, Out_Dur 1591265866,
                    Out_Dur 2875022499822], s0\<lparr>st_i := 3\<rparr>))"
    by (simp add: NewSourceChaCha8_def Init_seed_B Bool_def Dur_def
        IntN_def Int64N_def uint64n_def Uint64.simps Next_def Mul64_def wrap_int64_def Let_def)
  from two_runs a fa b fb show ?thesis by blast
qed

theorem Source_reproducible_witness:
  "NewSeed ''0123456789abcdef0123456789abcdef'' = Inr ''0123456789abcdef0123456789abcdef'' \<and>
   run_calls (NewSourceChaCha8 ''0123456789abcdef0123456789abcdef'')
     [Call_Bool, Call_Dur 1000000000 1000000000, Call_Dur 1000000000 2000000000,
        Call_Dur 0 3600000000000] =
   run_calls (NewSourceChaCha8 ''0123456789abcdef0123456789abcdef'')
     [Call_Bool, Call_Dur 1000000000 1000000000, Call_Dur 1000000000 2000000000,
        Call_Dur 0 3600000000000] \<and>
   run_calls (NewSourceChaCha8 ''0123456789abcdef0123456789abcdef'')
     [Call_Bool, Call_Dur 1000000000 1000000000, Call_Dur 1000000000 2000000000,
        Call_Dur 0 3600000000000] =
     Some (Inr ([Out_Bool False, Out_Dur 1000000000, Out_Dur 1684999282,
                 Out_Dur 1507572021725], (NewSourceChaCha8 ''0123456789abcdef0123456789abcdef'')\<lparr>st_i := 3\<rparr>))"
  using Source_reproducible by (simp add: Let_def)

text \<open>
  Claim C5. \<open>Dur\<close> computes \<open>delta := max - min\<close> in \<open>int64\<close>. For
  \<open>min = -5000000000000000000\<close> and \<open>max = 5000000000000000000\<close> (a range that
  \<open>DurRange.Validate\<close> accepts) the difference wraps around to a negative number and
  \<open>Int64N\<close> panics, whatever the state of the generator: the call returns no duration.
\<close>

theorem Dur_overflow_example:
  "Dur s (- 5000000000000000000) 5000000000000000000 =
     Some (Inl (Panic ''invalid argument to Int64N''))"
  by (simp add: Dur_def Int64N_def wrap_int64_def)

text \<open>
  When \<open>min >= max\<close>, \<open>Dur\<close> returns \<open>min\<close> and leaves the generator as it was.
\<close>

theorem Dur_min_ge_max: "dmax \<le> dmin \<Longrightarrow> Dur s dmin dmax = Some (Inr (dmin, s))"
  by (rule Dur_degenerate)

theorem Dur_min_ge_max_witness:
  "Dur (NewSourceChaCha8 ''fedcba9876543210fedcba9876543210'') 1000000000 1000000000 =
     Some (Inr (1000000000, NewSourceChaCha8 ''fedcba9876543210fedcba9876543210''))"
  using Dur_min_ge_max
    [of 1000000000 1000000000 "NewSourceChaCha8 ''fedcba9876543210fedcba9876543210''"]
  by simp

text \<open>
  When \<open>min < max\<close> and \<open>max - min\<close> fits in an \<open>int64\<close>, every duration that
  \<open>Dur\<close> returns lies in \<open>[min, max)\<close>, and \<open>Dur\<close> does not panic.
\<close>

theorem Dur_in_range:
  assumes "valid_State s" and "is_int64 dmin" and "is_int64 dmax" and "dmin < dmax"
    and "dmax - dmin < 2 ^ 63" and "Dur s dmin dmax = Some res"
  shows "\<exists>d s'. res = Inr (d, s') \<and> dmin \<le> d \<and> d < dmax \<and> valid_State s'"
  using assms by (rule Dur_range)

theorem Dur_in_range_witness:
  "Dur (NewSourceChaCha8 ''fedcba9876543210fedcba9876543210'') 1000000000 2000000000 =
     Some (Inr (1394636475,
       (NewSourceChaCha8 ''fedcba9876543210fedcba9876543210'')\<lparr>st_i := 1\<rparr>)) \<and>
   (1000000000::int) \<le> 1394636475 \<and> (1394636475::int) < 2000000000"
proof -
  let ?s = "NewSourceChaCha8 ''fedcba9876543210fedcba9876543210''"
  have d: "Dur ?s 1000000000 2000000000 = Some (Inr (1394636475, ?s\<lparr>st_i := 1\<rparr>))"
    by (simp add: NewSourceChaCha8_def Init_seed_B Dur_def Int64N_def uint64n_def Uint64.simps
        Next_def Mul64_def wrap_int64_def Let_def)
  have "\<exists>d s'. (Inr (1394636475, ?s\<lparr>st_i := 1\<rparr>) :: panic + int \<times> State) = Inr (d, s')
          \<and> 1000000000 \<le> d \<and> d < 2000000000 \<and> valid_State s'"
    by (rule Dur_in_range [OF valid_State_Init _ _ _ _ d]) (simp_all add: is_int64_def)
  with d show ?thesis by simp
qed

text \<open>
  When \<open>min < max\<close> and \<open>max - min\<close> does not fit in an \<open>int64\<close>, \<open>Dur\<close> panics.
\<close>

theorem Dur_overflow_panics_all:
  assumes "is_int64 dmin" and "is_int64 dmax" and "dmin < dmax" and "2 ^ 63 \<le> dmax - dmin"
  shows "Dur s dmin dmax = Some (Inl (Panic ''invalid argument to Int64N''))"
  using assms by (rule Dur_overflow_panics)

theorem Dur_overflow_panics_all_witness:
  "is_int64 (- (2 ^ 63)) \<and> is_int64 1 \<and>
   Dur (NewSourceChaCha8 ''fedcba9876543210fedcba9876543210'') (- (2 ^ 63)) 1 =
     Some (Inl (Panic ''invalid argument to Int64N''))"
proof -
  have h: "is_int64 (- (2 ^ 63))" "is_int64 1" by (simp_all add: is_int64_def)
  from Dur_overflow_panics_all [OF h, of "NewSourceChaCha8 ''fedcba9876543210fedcba9876543210''"] h
  show ?thesis by simp
qed

text \<open>
  The first draw of \<open>Dur(1s, 2s)\<close> on a fresh source with the second seed of the
  tests: the first word of the stream is accepted.
\<close>

lemma Dur_seed_B_first:
  "Dur (NewSourceChaCha8 ''fedcba9876543210fedcba9876543210'') 1000000000 2000000000 =
     Some (Inr (1394636475, (NewSourceChaCha8 ''fedcba9876543210fedcba9876543210'')\<lparr>st_i := 1\<rparr>))"
  by (simp add: NewSourceChaCha8_def Init_seed_B Dur_def Int64N_def uint64n_def Uint64.simps
      Next_def Mul64_def wrap_int64_def Let_def)

lemma accepts_seed_B_first:
  "accepts 1000000000 (draws 0 (NewSourceChaCha8 ''fedcba9876543210fedcba9876543210''))"
  by (simp add: accepts_def NewSourceChaCha8_def Init_seed_B Uint64.simps Next_def Mul64_def)

text \<open>
  A run can be continued: the outputs of the calls made so far do not depend on the calls
  that follow.
\<close>

theorem run_calls_append:
  "run_calls s cs = Some (Inr (outs, s')) \<Longrightarrow>
   run_calls s (cs @ cs') =
     (case run_calls s' cs' of
        None \<Rightarrow> None
      | Some (Inl p) \<Rightarrow> Some (Inl p)
      | Some (Inr (outs', s'')) \<Rightarrow> Some (Inr (outs @ outs', s'')))"
proof (induction cs arbitrary: s outs)
  case Nil
  then show ?case by (auto split: option.splits sum.splits)
next
  case (Cons c cs)
  show ?case
  proof (cases c)
    case Call_Bool
    with Cons.prems obtain b s1 o1 where
      b: "Bool s = Some (Inr (b, s1))" and r: "run_calls s1 cs = Some (Inr (o1, s'))"
      and o: "outs = Out_Bool b # o1"
      by (auto split: option.splits sum.splits)
    from Cons.IH [OF r] Call_Bool b o show ?thesis
      by (simp split: option.splits sum.splits)
  next
    case (Call_Dur dmin dmax)
    with Cons.prems obtain d s1 o1 where
      d: "Dur s dmin dmax = Some (Inr (d, s1))" and r: "run_calls s1 cs = Some (Inr (o1, s'))"
      and o: "outs = Out_Dur d # o1"
      by (auto split: option.splits sum.splits)
    from Cons.IH [OF r] Call_Dur d o show ?thesis
      by (simp split: option.splits sum.splits)
  qed
qed

theorem run_calls_append_witness:
  "run_calls (NewSourceChaCha8 ''fedcba9876543210fedcba9876543210'')
     ([Call_Dur 1000000000 2000000000] @ [Call_Dur 5 5]) =
     Some (Inr ([Out_Dur 1394636475] @ [Out_Dur 5],
       (NewSourceChaCha8 ''fedcba9876543210fedcba9876543210'')\<lparr>st_i := 1\<rparr>))"
proof -
  let ?s = "NewSourceChaCha8 ''fedcba9876543210fedcba9876543210''"
  have r: "run_calls ?s [Call_Dur 1000000000 2000000000] =
      Some (Inr ([Out_Dur 1394636475], ?s\<lparr>st_i := 1\<rparr>))"
    by (simp add: Dur_seed_B_first)
  from run_calls_append [OF r, of "[Call_Dur 5 5]"] show ?thesis
    by (simp add: Dur_def)
qed

section \<open>Properties of the middleware\<close>

text \<open>
  Claim C8. Take a request that matches a rule whose effect is a delay between one and
  two seconds and no replacement, and a well-formed generator. The draw of the delay
  returns exactly when the stream of the generator holds a word that the rejection loop
  of \<open>uint64n\<close> accepts for the bound \<open>1000000000\<close>. When it does, the draw returns a
  duration \<open>d\<close> with \<open>1s <= d < 2s\<close> and the middleware returns after exactly two
  calls: it sleeps for \<open>d\<close> and then passes the request to the next handler, with the
  matched index, \<open>d\<close> and \<open>Replaced = false\<close> in its context. It makes no call on
  the response writer. When the stream holds no such word, the draw does not return, and
  neither does the middleware.
\<close>

theorem delay_only_forwards:
  assumes "valid_State (rnd w)"
    and "Match r (config m) = idx" and "idx \<noteq> - 1"
    and "Effect (Resources (config m) ! nat idx) =
           Some \<lparr>Delay = Some \<lparr>Min_d = 1000000000, Max_d = 2000000000\<rparr>, Replace = None\<rparr>"
  shows "((\<exists>k. accepts 1000000000 (draws k (rnd w))) \<longleftrightarrow>
            Dur (rnd w) 1000000000 2000000000 \<noteq> None) \<and>
         (Dur (rnd w) 1000000000 2000000000 = None \<longrightarrow> ServeHTTP m r w = None) \<and>
         (\<forall>res. Dur (rnd w) 1000000000 2000000000 = Some res \<longrightarrow>
            (\<exists>d s'. res = Inr (d, s') \<and> 1000000000 \<le> d \<and> d < 2000000000 \<and>
               ServeHTTP m r w =
                 Some (Inr (w\<lparr>rnd := s',
                   events := events w @
                     [Sleep d,
                      Next_ServeHTTP (r\<lparr>ctx := Some \<lparr>MatchedResourceIndex = idx,
                        CtxInfo_Delay = d, Replaced = False\<rparr>\<rparr>)]\<rparr>)))) \<and>
         ((\<exists>k. accepts 1000000000 (draws k (rnd w))) \<longrightarrow>
            (\<exists>d s'. Dur (rnd w) 1000000000 2000000000 = Some (Inr (d, s')) \<and>
               1000000000 \<le> d \<and> d < 2000000000 \<and>
               ServeHTTP m r w =
                 Some (Inr (w\<lparr>rnd := s',
                   events := events w @
                     [Sleep d,
                      Next_ServeHTTP (r\<lparr>ctx := Some \<lparr>MatchedResourceIndex = idx,
                        CtxInfo_Delay = d, Replaced = False\<rparr>\<rparr>)]\<rparr>))))"
proof -
  let ?D = "Dur (rnd w) 1000000000 2000000000"
  let ?fwd = "\<lambda>d s'. Some (Inr (w\<lparr>rnd := s',
                   events := events w @
                     [Sleep d,
                      Next_ServeHTTP (r\<lparr>ctx := Some \<lparr>MatchedResourceIndex = idx,
                        CtxInfo_Delay = d, Replaced = False\<rparr>\<rparr>)]\<rparr>))"
  have returns: "(\<exists>k. accepts 1000000000 (draws k (rnd w))) \<longleftrightarrow> ?D \<noteq> None"
    using Dur_returns_iff [of 1000000000 2000000000 "rnd w"] by simp
  have diverges: "?D = None \<longrightarrow> ServeHTTP m r w = None"
    using assms(2-4)
    by (simp add: ServeHTTP_def Middleware_apply_def apply_delay_def Let_def)
  have result: "\<exists>d s'. res = Inr (d, s') \<and> 1000000000 \<le> d \<and> d < 2000000000 \<and>
                 ServeHTTP m r w = ?fwd d s'"
    if res: "?D = Some res" for res
  proof -
    from Dur_range [OF assms(1) _ _ _ _ res]
    obtain d s' where d: "res = Inr (d, s')" "1000000000 \<le> d" "d < 2000000000"
      by (auto simp: is_int64_def)
    with res assms(2-4) have "ServeHTTP m r w = ?fwd d s'"
      by (simp add: ServeHTTP_def Middleware_apply_def apply_delay_def Let_def)
    with d show ?thesis by blast
  qed
  have total: "\<exists>d s'. ?D = Some (Inr (d, s')) \<and> 1000000000 \<le> d \<and> d < 2000000000 \<and>
                 ServeHTTP m r w = ?fwd d s'"
    if "\<exists>k. accepts 1000000000 (draws k (rnd w))"
  proof -
    from that returns obtain res where res: "?D = Some res" by auto
    from result [OF res] res show ?thesis by auto
  qed
  from returns diverges result total show ?thesis by blast
qed

text \<open>
  The configuration and seed of \<open>TestHandleDur\<close>: the first word of the stream is
  accepted, and the delay is the \<open>1.394636475s\<close> that the test expects.
\<close>

theorem delay_only_forwards_witness:
  "accepts 1000000000 (draws 0 (NewSourceChaCha8 ''fedcba9876543210fedcba9876543210'')) \<and>
   ServeHTTP
     \<lparr>config = \<lparr>Resources =
        [\<lparr>Methods = [], Path = \<lparr>glob = None\<rparr>, Headers = [], Query = [],
          Effect = Some \<lparr>Delay = Some \<lparr>Min_d = 1000000000, Max_d = 2000000000\<rparr>,
                         Replace = None\<rparr>\<rparr>]\<rparr>\<rparr>
     \<lparr>Method = ''GET'', URL_Path = ''/'', Header = [], URL_Query = [], ctx = None\<rparr>
     \<lparr>rnd = NewSourceChaCha8 ''fedcba9876543210fedcba9876543210'', events = []\<rparr> =
   Some (Inr
     \<lparr>rnd = (NewSourceChaCha8 ''fedcba9876543210fedcba9876543210'')\<lparr>st_i := 1\<rparr>,
      events =
        [Sleep 1394636475,
         Next_ServeHTTP
           \<lparr>Method = ''GET'', URL_Path = ''/'', Header = [], URL_Query = [],
            ctx = Some \<lparr>MatchedResourceIndex = 0, CtxInfo_Delay = 1394636475,
                        Replaced = False\<rparr>\<rparr>]\<rparr>)"
proof -
  let ?m = "\<lparr>config = \<lparr>Resources =
        [\<lparr>Methods = [], Path = \<lparr>glob = None\<rparr>, Headers = [], Query = [],
          Effect = Some \<lparr>Delay = Some \<lparr>Min_d = 1000000000, Max_d = 2000000000\<rparr>,
                         Replace = None\<rparr>\<rparr>]\<rparr>\<rparr>"
  let ?r = "\<lparr>Method = ''GET'', URL_Path = ''/'', Header = [], URL_Query = [], ctx = None\<rparr>"
  let ?w = "\<lparr>rnd = NewSourceChaCha8 ''fedcba9876543210fedcba9876543210'', events = []\<rparr>"
  have v: "valid_State (rnd ?w)" by (simp add: valid_State_Init)
  have m: "Match ?r (config ?m) = 0"
    by (simp add: Match_def MatchResource_def GlobExpression_Match_def)
  have e: "Effect (Resources (config ?m) ! nat 0) =
      Some \<lparr>Delay = Some \<lparr>Min_d = 1000000000, Max_d = 2000000000\<rparr>, Replace = None\<rparr>"
    by simp
  have a: "\<exists>k. accepts 1000000000 (draws k (rnd ?w))"
    using accepts_seed_B_first by (intro exI [of _ 0]) simp
  from delay_only_forwards [OF v m _ e] a
  obtain d s' where d: "Dur (rnd ?w) 1000000000 2000000000 = Some (Inr (d, s'))"
    and s: "ServeHTTP ?m ?r ?w =
      Some (Inr (?w\<lparr>rnd := s', events := events ?w @
        [Sleep d, Next_ServeHTTP (?r\<lparr>ctx := Some \<lparr>MatchedResourceIndex = 0,
           CtxInfo_Delay = d, Replaced = False\<rparr>\<rparr>)]\<rparr>))"
    by auto
  from d have "d = 1394636475"
    "s' = (NewSourceChaCha8 ''fedcba9876543210fedcba9876543210'')\<lparr>st_i := 1\<rparr>"
    by (simp_all add: Dur_seed_B_first)
  with s accepts_seed_B_first show ?thesis by simp
qed

lemma record_events_Header_Set:
  "record_events rw (map (\<lambda>(h, v). Header_Set h v) hs @ es) = record_events rw es"
  by (induction hs) auto

text \<open>
  Claim C1. For the rule of the README (\<open>DELETE /specific\<close> replaced by status 404,
  the body \<open>Specific resource not found\<close> and the header \<open>Content-Type: text/plain\<close>)
  and a \<open>DELETE\<close> request to \<open>/specific\<close>, the middleware sets the header, writes the
  body and then calls \<open>WriteHeader(404)\<close>, and does not call the next handler. The
  body is written before the status, so the response writer has already sent status 200
  when \<open>WriteHeader(404)\<close> arrives: the response carries the configured body and
  status 200, not 404.
\<close>

theorem README_replace_status:
  "ServeHTTP
     \<lparr>config = \<lparr>Resources =
        [\<lparr>Methods = [''DELETE''], Path = \<lparr>glob = Some (\<lambda>p. p = ''/specific'')\<rparr>,
          Headers = [], Query = [],
          Effect = Some \<lparr>Delay = None,
            Replace = Some \<lparr>StatusCode = 404, Body = Some ''Specific resource not found'',
              Replace_Headers = [(''Content-Type'', ''text/plain'')]\<rparr>\<rparr>\<rparr>]\<rparr>\<rparr>
     \<lparr>Method = ''DELETE'', URL_Path = ''/specific'', Header = [], URL_Query = [], ctx = None\<rparr>
     \<lparr>rnd = s, events = []\<rparr> =
   Some (Inr \<lparr>rnd = s, events =
     [Header_Set ''Content-Type'' ''text/plain'', Write ''Specific resource not found'',
      WriteHeader 404]\<rparr>) \<and>
   recorded
     [Header_Set ''Content-Type'' ''text/plain'', Write ''Specific resource not found'',
      WriteHeader 404] =
     Inr \<lparr>Code = 200, wroteHeader = True, Body_written = ''Specific resource not found''\<rparr>"
  by (simp add: ServeHTTP_def Match_def MatchResource_def GlobExpression_Match_def
      Middleware_apply_def apply_delay_def recorded_def NewRecorder_def Recorder_Write_def
      Recorder_WriteHeader_def Let_def)

text \<open>
  A request that matches a rule whose effect is a replacement without a delay: the
  middleware sets each configured header, writes the body if there is one, calls
  \<open>WriteHeader\<close> with the configured status code, and does not call the next handler.
\<close>

theorem replace_only_calls:
  assumes "Match r (config m) = idx" and "idx \<noteq> - 1"
    and "Effect (Resources (config m) ! nat idx) = Some \<lparr>Delay = None, Replace = Some rep\<rparr>"
  shows "ServeHTTP m r w =
           Some (Inr (w\<lparr>events := events w
             @ map (\<lambda>(h, v). Header_Set h v) (Replace_Headers rep)
             @ (case Body rep of None \<Rightarrow> [] | Some b \<Rightarrow> [Write b])
             @ [WriteHeader (StatusCode rep)]\<rparr>))"
  using assms
  by (simp add: ServeHTTP_def Middleware_apply_def apply_delay_def Let_def)

theorem replace_only_calls_witness:
  "ServeHTTP
     \<lparr>config = \<lparr>Resources =
        [\<lparr>Methods = [], Path = \<lparr>glob = None\<rparr>, Headers = [], Query = [],
          Effect = Some \<lparr>Delay = None,
            Replace = Some \<lparr>StatusCode = 204, Body = None, Replace_Headers = []\<rparr>\<rparr>\<rparr>]\<rparr>\<rparr>
     \<lparr>Method = ''GET'', URL_Path = ''/'', Header = [], URL_Query = [], ctx = None\<rparr>
     \<lparr>rnd = NewSourceChaCha8 ''fedcba9876543210fedcba9876543210'', events = []\<rparr> =
   Some (Inr \<lparr>rnd = NewSourceChaCha8 ''fedcba9876543210fedcba9876543210'',
              events = [WriteHeader 204]\<rparr>)"
proof -
  let ?m = "\<lparr>config = \<lparr>Resources =
        [\<lparr>Methods = [], Path = \<lparr>glob = None\<rparr>, Headers = [], Query = [],
          Effect = Some \<lparr>Delay = None,
            Replace = Some \<lparr>StatusCode = 204, Body = None, Replace_Headers = []\<rparr>\<rparr>\<rparr>]\<rparr>\<rparr>"
  let ?r = "\<lparr>Method = ''GET'', URL_Path = ''/'', Header = [], URL_Query = [], ctx = None\<rparr>"
  have m: "Match ?r (config ?m) = 0"
    by (simp add: Match_def MatchResource_def GlobExpression_Match_def)
  have e: "Effect (Resources (config ?m) ! nat 0) =
      Some \<lparr>Delay = None,
        Replace = Some \<lparr>StatusCode = 204, Body = None, Replace_Headers = []\<rparr>\<rparr>"
    by simp
  from replace_only_calls [OF m _ e] show ?thesis by simp
qed

text \<open>
  What the response writer makes of those calls: with a body, status 200 and the
  configured body, whatever the configured status code; without a body, the configured
  status code, or a panic when the code is outside \<open>100 .. 999\<close>.
\<close>

theorem recorded_replace_status:
  "recorded (map (\<lambda>(h, v). Header_Set h v) hs
      @ (case body of None \<Rightarrow> [] | Some b \<Rightarrow> [Write b]) @ [WriteHeader code]) =
     (case body of
        Some b \<Rightarrow> Inr \<lparr>Code = 200, wroteHeader = True, Body_written = b\<rparr>
      | None \<Rightarrow>
          if code < 100 \<or> code > 999 then Inl (Panic ''invalid WriteHeader code'')
          else Inr \<lparr>Code = code, wroteHeader = True, Body_written = []\<rparr>)"
  by (cases body)
     (simp_all add: recorded_def record_events_Header_Set NewRecorder_def Recorder_Write_def
       Recorder_WriteHeader_def)

theorem recorded_replace_status_witness:
  "recorded [WriteHeader 204] = Inr \<lparr>Code = 204, wroteHeader = True, Body_written = []\<rparr> \<and>
   recorded [Header_Set ''X-CustomAdd'' ''added'', Write ''replaced body'', WriteHeader 500] =
     Inr \<lparr>Code = 200, wroteHeader = True, Body_written = ''replaced body''\<rparr> \<and>
   recorded [WriteHeader 0] = Inl (Panic ''invalid WriteHeader code'')"
  using recorded_replace_status [of "[]" None 204]
    recorded_replace_status [of "[(''X-CustomAdd'', ''added'')]" "Some ''replaced body''" 500]
    recorded_replace_status [of "[]" None 0]
  by simp

end
